theory Spec2Isabelle
  imports Complex_Main
begin

section \<open>Strings, bytes and the interpreter's character tables\<close>

text \<open>
  A Python \<^verbatim>\<open>str\<close> is a sequence of Unicode code points and \<^verbatim>\<open>len\<close> counts
  code points, so a string is a list of code points here (the Hindi word list of the
  language detector lies outside Latin-1). \<^verbatim>\<open>bytes\<close> is a list of byte values.
\<close>

type_synonym ustr = "nat list"
type_synonym bytes = "nat list"

definition lit :: "string \<Rightarrow> ustr" where
  "lit s = map of_char s"

text \<open>
  \<^verbatim>\<open>str.isalnum\<close>, \<^verbatim>\<open>str.isprintable\<close>, \<^verbatim>\<open>str.isspace\<close>, \<^verbatim>\<open>str.isdecimal\<close> and
  \<^verbatim>\<open>str.lower\<close> are tables of the interpreter's Unicode database, which is not part
  of the repository: the functions below take them as a parameter. \<^verbatim>\<open>lower\<close> maps
  whole strings, since lower-casing can change the length of a string.
\<close>

record unicode_db =
  isalnum :: "nat \<Rightarrow> bool"
  isprintable :: "nat \<Rightarrow> bool"
  isspace :: "nat \<Rightarrow> bool"
  isdecimal :: "nat \<Rightarrow> bool"
  lower :: "ustr \<Rightarrow> ustr"

text \<open>The tables restricted to ASCII (other code points left alone), for concrete runs.\<close>

definition ascii_db :: unicode_db where
  "ascii_db =
     \<lparr> isalnum = (\<lambda>c. (48 \<le> c \<and> c \<le> 57) \<or> (65 \<le> c \<and> c \<le> 90) \<or> (97 \<le> c \<and> c \<le> 122)),
       isprintable = (\<lambda>c. 32 \<le> c \<and> c \<le> 126),
       isspace = (\<lambda>c. (9 \<le> c \<and> c \<le> 13) \<or> (28 \<le> c \<and> c \<le> 32)),
       isdecimal = (\<lambda>c. 48 \<le> c \<and> c \<le> 57),
       lower = map (\<lambda>c. if 65 \<le> c \<and> c \<le> 90 then c + 32 else c) \<rparr>"

text \<open>\<^verbatim>\<open>s.strip()\<close>: leading and trailing whitespace removed.\<close>

definition py_strip :: "unicode_db \<Rightarrow> ustr \<Rightarrow> ustr" where
  "py_strip db s = rev (dropWhile (isspace db) (rev (dropWhile (isspace db) s)))"

text \<open>\<^verbatim>\<open>sep.join(parts)\<close>.\<close>

fun py_join :: "ustr \<Rightarrow> ustr list \<Rightarrow> ustr" where
  "py_join sep [] = []"
| "py_join sep [p] = p"
| "py_join sep (p # q # ps) = p @ sep @ py_join sep (q # ps)"

text \<open>\<^verbatim>\<open>sub in s\<close>: \<open>sub\<close> occurs in \<open>s\<close> as a contiguous run.\<close>

fun contains :: "ustr \<Rightarrow> ustr \<Rightarrow> bool" where
  "contains [] sub = (sub = [])"
| "contains (c # s) sub = (take (length sub) (c # s) = sub \<or> contains s sub)"

text \<open>
  \<^verbatim>\<open>s.count(sub)\<close>: the number of non-overlapping occurrences, scanning from the left;
  after a hit the scan resumes behind it. \<open>count_from sub k s\<close> scans \<open>s\<close> with the
  next \<open>k\<close> positions still covered by the last hit. (For the empty \<open>sub\<close> Python
  answers \<open>len(s) + 1\<close>.)
\<close>

fun count_from :: "ustr \<Rightarrow> nat \<Rightarrow> ustr \<Rightarrow> nat" where
  "count_from sub k [] = 0"
| "count_from sub (Suc k) (c # s) = count_from sub k s"
| "count_from sub 0 (c # s) =
     (if take (length sub) (c # s) = sub then Suc (count_from sub (length sub - 1) s)
      else count_from sub 0 s)"

definition py_count :: "ustr \<Rightarrow> ustr \<Rightarrow> nat" where
  "py_count s sub = (if sub = [] then Suc (length s) else count_from sub 0 s)"

text \<open>\<^verbatim>\<open>len(s.split())\<close>: the number of maximal runs of non-whitespace characters.\<close>

fun count_words :: "unicode_db \<Rightarrow> bool \<Rightarrow> ustr \<Rightarrow> nat" where
  "count_words db inside [] = 0"
| "count_words db inside (c # s) =
     (if isspace db c then count_words db False s
      else if inside then count_words db True s
      else Suc (count_words db True s))"

text \<open>\<^verbatim>\<open>s.split(',')\<close>: the pieces between the separators, empty pieces kept.\<close>

fun py_split :: "nat \<Rightarrow> ustr \<Rightarrow> ustr list" where
  "py_split sep [] = [[]]"
| "py_split sep (c # s) =
     (if c = sep then [] # py_split sep s
      else (case py_split sep s of [] \<Rightarrow> [[c]] | p # ps \<Rightarrow> (c # p) # ps))"

text \<open>\<^verbatim>\<open>str(n)\<close> for a non-negative integer: its decimal digits.\<close>

fun str_of_nat :: "nat \<Rightarrow> ustr" where
  "str_of_nat n = (if n < 10 then [48 + n] else str_of_nat (n div 10) @ [48 + n mod 10])"

declare str_of_nat.simps [simp del]

section \<open>Regular expressions of the quality scorer\<close>

text \<open>
  The four patterns of \<^verbatim>\<open>calculate_quality_score_comprehensive\<close> use character
  classes, \<^verbatim>\<open>+\<close> on a class, literals, alternation, sequencing and the word boundary
  \<^verbatim>\<open>\b\<close>. \<open>ends db r t i\<close> lists the positions at which a match of \<open>r\<close> that starts
  at position \<open>i\<close> of \<open>t\<close> can end, so that backtracking is covered;
  \<^verbatim>\<open>re.search(r, t)\<close> is true when some start position has an end position.
  In a \<^verbatim>\<open>str\<close> pattern \<^verbatim>\<open>\w\<close> is \<^verbatim>\<open>isalnum\<close> or the underscore, \<^verbatim>\<open>\d\<close> is
  \<^verbatim>\<open>isdecimal\<close> and \<^verbatim>\<open>\s\<close> is \<^verbatim>\<open>isspace\<close>.
\<close>

datatype rx =
  Cls "nat \<Rightarrow> bool"
| PlusCls "nat \<Rightarrow> bool"
| Lit ustr
| WordB
| Seq rx rx
| Alt rx rx

definition is_word :: "unicode_db \<Rightarrow> nat \<Rightarrow> bool" where
  "is_word db c = (isalnum db c \<or> c = 95)"

definition word_at :: "unicode_db \<Rightarrow> ustr \<Rightarrow> nat \<Rightarrow> bool" where
  "word_at db t i = (i < length t \<and> is_word db (t ! i))"

definition boundary :: "unicode_db \<Rightarrow> ustr \<Rightarrow> nat \<Rightarrow> bool" where
  "boundary db t i = ((0 < i \<and> word_at db t (i - 1)) \<noteq> word_at db t i)"

fun ends :: "unicode_db \<Rightarrow> rx \<Rightarrow> ustr \<Rightarrow> nat \<Rightarrow> nat list" where
  "ends db (Cls p) t i = (if i < length t \<and> p (t ! i) then [Suc i] else [])"
| "ends db (PlusCls p) t i =
     map (\<lambda>k. i + k) (rev [1 ..< Suc (length (takeWhile p (drop i t)))])"
| "ends db (Lit w) t i = (if take (length w) (drop i t) = w then [i + length w] else [])"
| "ends db WordB t i = (if boundary db t i then [i] else [])"
| "ends db (Seq a b) t i = concat (map (ends db b t) (ends db a t i))"
| "ends db (Alt a b) t i = ends db a t i @ ends db b t i"

definition re_search :: "unicode_db \<Rightarrow> rx \<Rightarrow> ustr \<Rightarrow> bool" where
  "re_search db r t = list_ex (\<lambda>i. ends db r t i \<noteq> []) [0 ..< Suc (length t)]"

definition upper_AZ :: "nat \<Rightarrow> bool" where
  "upper_AZ c = (65 \<le> c \<and> c \<le> 90)"

definition lower_az :: "nat \<Rightarrow> bool" where
  "lower_az c = (97 \<le> c \<and> c \<le> 122)"

text \<open>
  \<^verbatim>\<open>\b[A-Z][a-z]+\b\<close>, \<^verbatim>\<open>\b\d+\b\<close>, \<^verbatim>\<open>[.!?]\s+[A-Z]\<close> and
  \<^verbatim>\<open>\b(the|and|or|of|to|in|for|with|on|at|by|from)\b\<close>, in the order of the source.
\<close>

definition patterns :: "unicode_db \<Rightarrow> rx list" where
  "patterns db =
     [ Seq WordB (Seq (Cls upper_AZ) (Seq (PlusCls lower_az) WordB)),
       Seq WordB (Seq (PlusCls (isdecimal db)) WordB),
       Seq (Cls (\<lambda>c. c = 46 \<or> c = 33 \<or> c = 63)) (Seq (PlusCls (isspace db)) (Cls upper_AZ)),
       Seq WordB (Seq
         (foldr Alt (map (\<lambda>w. Lit (lit w))
            [''the'', ''and'', ''or'', ''of'', ''to'', ''in'', ''for'', ''with'', ''on'', ''at'', ''by''])
            (Lit (lit ''from'')))
         WordB) ]"

section \<open>Quality scorer\<close>

text \<open>
  \<^verbatim>\<open>calculate_quality_score_comprehensive\<close>, statement by statement. The score is a
  Python float; the model computes with exact reals.
\<close>

definition calculate_quality_score_comprehensive :: "unicode_db \<Rightarrow> ustr \<Rightarrow> real" where
  "calculate_quality_score_comprehensive db txt =
     (if txt = [] \<or> length (py_strip db txt) < 5 then 0
      else
        let alphanumeric = length (filter (isalnum db) txt);
            printable = length (filter (isprintable db) txt);
            total = length txt
        in if total = 0 then 0
           else
             let score = (real printable / real total) * 0.3;
                 alphanumeric_ratio = real alphanumeric / real total;
                 score = (if alphanumeric_ratio \<ge> 0.4 then score + 0.4
                          else score + alphanumeric_ratio);
                 score = (if length txt > 500 then score + 0.1
                          else if length txt > 100 then score + 0.05
                          else score);
                 pattern_matches = length (filter (\<lambda>p. re_search db p txt) (patterns db));
                 score = (if pattern_matches \<ge> 3 then score + 0.2 else score);
                 whitespace_ratio = real (length (filter (isspace db) txt)) / real total;
                 score = (if whitespace_ratio > 0.3 then score - 0.1 else score)
             in min 1 (max 0 score))"

text \<open>The scorer as the specification words it: a clamped sum of five terms.\<close>

definition spec_quality_sum :: "unicode_db \<Rightarrow> ustr \<Rightarrow> real" where
  "spec_quality_sum db txt =
     (let n = real (length txt);
          printable_ratio = real (length (filter (isprintable db) txt)) / n;
          alnum_ratio = real (length (filter (isalnum db) txt)) / n;
          whitespace_ratio = real (length (filter (isspace db) txt)) / n;
          matching = length (filter (\<lambda>p. re_search db p txt) (patterns db))
      in printable_ratio * 0.3
         + (if alnum_ratio \<ge> 0.4 then 0.4 else alnum_ratio)
         + (if length txt > 500 then 0.1 else if length txt > 100 then 0.05 else 0)
         + (if matching \<ge> 3 then 0.2 else 0)
         - (if whitespace_ratio > 0.3 then 0.1 else 0))"

section \<open>Language detector\<close>

definition english_words :: "ustr list" where
  "english_words = map lit
     [''the'', ''and'', ''or'', ''of'', ''to'', ''in'', ''for'', ''with'', ''on'', ''at'', ''by'',
      ''from'', ''this'', ''that'', ''these'', ''those'']"

text \<open>The twelve Devanagari words of the source, as code points.\<close>

definition hindi_words :: "ustr list" where
  "hindi_words =
     [[2361, 2376], [2361, 2376, 2306], [2341, 2366], [2341, 2375], [2325, 2368], [2325, 2375],
      [2325, 2379], [2346, 2352], [2360, 2375], [2350, 2375, 2306], [2325, 2366], [2325, 2367]]"

definition spanish_words :: "ustr list" where
  "spanish_words = map lit
     [''el'', ''la'', ''de'', ''que'', ''y'', ''a'', ''en'', ''un'', ''es'', ''se'', ''no'', ''te'',
      ''lo'', ''le'', ''da'', ''su'', ''por'', ''son'', ''con'', ''para'']"

definition detect_languages_comprehensive :: "unicode_db \<Rightarrow> ustr \<Rightarrow> ustr list" where
  "detect_languages_comprehensive db txt =
     (let text_lower = lower db txt;
          english_count = sum_list (map (py_count text_lower) english_words);
          hindi_count = sum_list (map (py_count text_lower) hindi_words);
          spanish_count = sum_list (map (py_count text_lower) spanish_words);
          languages = [];
          languages = (if english_count > 15 then languages @ [lit ''en''] else languages);
          languages = (if hindi_count > 5 then languages @ [lit ''hi''] else languages);
          languages = (if spanish_count > 10 then languages @ [lit ''es''] else languages)
      in if languages \<noteq> [] then languages else [lit ''unknown''])"

section \<open>The interpreter's clock and the record of external calls\<close>

text \<open>
  \<^verbatim>\<open>time.time()\<close> is an effect: the \<open>n\<close>-th call returns the \<open>n\<close>-th reading of a
  clock, and the number of readings taken so far is part of the state. The state also
  records, in order, the calls into the PDF parser (one entry per page taken apart) and
  into the OCR routine, so that the order of the pipeline's work can be stated.
\<close>

datatype event = EvDecomposePage nat | EvOcrCall nat

record world =
  ticks :: nat
  trace :: "event list"

definition time_time :: "(nat \<Rightarrow> real) \<Rightarrow> world \<Rightarrow> real \<times> world" where
  "time_time clk w = (clk (ticks w), w\<lparr>ticks := Suc (ticks w)\<rparr>)"

definition emit :: "event \<Rightarrow> world \<Rightarrow> world" where
  "emit e w = w\<lparr>trace := trace w @ [e]\<rparr>"

section \<open>The PDF parser's view of a document\<close>

text \<open>
  What PyMuPDF hands to \<^verbatim>\<open>extract_text_from_pdf_comprehensive\<close>. A page whose
  access raises (\<^verbatim>\<open>doc[page_num]\<close>, \<^verbatim>\<open>get_text\<close>, \<^verbatim>\<open>get_images\<close>, \<^verbatim>\<open>page.rect\<close>) is
  \<open>Inl\<close> of the exception's message. A block of the text dictionary either has the key
  \<^verbatim>\<open>"lines"\<close> or has not (an image block); a line has its spans' texts and its
  bounding box. An entry of \<^verbatim>\<open>get_images()\<close> carries the four values \<^verbatim>\<open>img[1:5]\<close>
  and the outcome of \<^verbatim>\<open>fitz.Pixmap(doc, xref)\<close> with \<^verbatim>\<open>tobytes("png")\<close>: a pixmap, or
  \<open>Inl\<close> when either raises.
\<close>

record line =
  spans :: "ustr list"
  line_bbox :: "real list"

type_synonym block = "line list option"

record pixmap =
  pix_n :: int
  pix_alpha :: int
  pix_png :: bytes
  pix_width :: nat
  pix_height :: nat

record raw_image =
  ri_rect :: "real list"
  ri_pixmap :: "ustr + pixmap"

record raw_page =
  rp_blocks :: "block list"
  rp_images :: "raw_image list"
  rp_width :: real
  rp_height :: real

section \<open>OCR configuration search\<close>

text \<open>
  The recognition engine (pytesseract), the image decoder (PIL) and the import-time
  flags are outside the repository; they are the fields of \<open>engine\<close>. A call that raises
  is a call that returns no result: \<open>Inl\<close> of the exception's message where the source
  prints it, \<open>None\<close> where the source only logs it.
  \<open>image_to_data\<close> stands for \<^verbatim>\<open>pytesseract.image_to_data(..., output_type=DICT)\<close>: the
  parallel lists \<^verbatim>\<open>data['text']\<close> and \<^verbatim>\<open>data['conf']\<close> as one list of pairs. A
  confidence that \<^verbatim>\<open>int()\<close> rejects raises inside the \<^verbatim>\<open>try\<close> of the configuration,
  which is then skipped as a whole: that case is \<open>None\<close> as well.
  \<open>fitz_open\<close> stands for \<^verbatim>\<open>fitz.open(stream=..., filetype="pdf")\<close> and
  \<open>sha256_hexdigest\<close> for \<^verbatim>\<open>hashlib.sha256(...).hexdigest()\<close>.
  An \<open>engine\<close> is the collaborators as they answer during one run of the service.
  Two of its fields can differ from one run to the next on the same input: the message
  of a failed \<^verbatim>\<open>Image.open\<close>, which PIL words with the address of the \<^verbatim>\<open>BytesIO\<close>
  object it was given, and \<open>set_order\<close>, the order in which the interpreter enumerates
  a set of strings (\<^verbatim>\<open>list(s)\<close>), which follows the hash seed of the process.
  \<open>preprocess_image_for_ocr\<close> (lines 218-259 of the source) is a chain of PIL and OpenCV
  calls under a handler that returns the image on any failure: a total function on
  images.
\<close>

record pil_image =
  im_width :: nat
  im_height :: nat
  im_pixels :: bytes

record engine =
  TESSERACT_AVAILABLE :: bool
  TESSERACT_CONFIGURED :: bool
  get_tesseract_version :: "ustr + ustr option"
  image_open :: "bytes \<Rightarrow> ustr + pil_image"
  preprocess_image_for_ocr :: "pil_image \<Rightarrow> pil_image"
  image_to_data :: "pil_image \<Rightarrow> ustr \<Rightarrow> ustr \<Rightarrow> (ustr \<times> real) list option"
  image_to_string :: "pil_image \<Rightarrow> ustr \<Rightarrow> ustr \<Rightarrow> ustr option"
  fitz_open :: "bytes \<Rightarrow> ustr + (ustr + raw_page) list"
  sha256_hexdigest :: "bytes \<Rightarrow> ustr"
  set_order :: "ustr set \<Rightarrow> ustr list"

text \<open>The dictionary \<^verbatim>\<open>extract_text_with_tesseract\<close> returns.\<close>

record ocr_result =
  r_text :: ustr
  r_confidence :: real
  r_page :: nat
  r_bbox :: "real list"
  r_chunk_type :: ustr
  r_language :: ustr
  r_processing_time :: real

text \<open>\<^verbatim>\<open>int(x)\<close> on a number: truncation towards zero.\<close>

definition py_int :: "real \<Rightarrow> int" where
  "py_int x = (if 0 \<le> x then \<lfloor>x\<rfloor> else \<lceil>x\<rceil>)"

text \<open>The five configurations, in the order of the source.\<close>

definition configs :: "ustr list" where
  "configs =
     [ lit ''--psm 6 -c tessedit_char_whitelist=0123456789ABCDEFGHIJKLMNOPQRSTUVWXYZabcdefghijklmnopqrstuvwxyz.,!?;:()[]{}'' @ [34, 39],
       lit ''--psm 3'',
       lit ''--psm 1'',
       lit ''--psm 4'',
       lit ''--psm 8'' ]"

text \<open>The variables \<^verbatim>\<open>best_text\<close>, \<^verbatim>\<open>best_confidence\<close>, \<^verbatim>\<open>best_config\<close> of the search.\<close>

record best =
  best_text :: ustr
  best_confidence :: real
  best_config :: ustr

text \<open>
  The inner loop over the tokens of one configuration, with its two accumulators
  \<^verbatim>\<open>text_parts\<close> and \<^verbatim>\<open>confidences\<close>.
\<close>

fun collect_tokens :: "(ustr \<times> real) list \<Rightarrow> ustr list \<Rightarrow> int list \<Rightarrow> ustr list \<times> int list" where
  "collect_tokens [] text_parts confidences = (text_parts, confidences)"
| "collect_tokens ((t, c) # rest) text_parts confidences =
     (let conf = py_int c
      in if conf > 30 then collect_tokens rest (text_parts @ [t]) (confidences @ [conf])
         else collect_tokens rest text_parts confidences)"

text \<open>One pass of \<^verbatim>\<open>for config in configs\<close>; confidences are exact reals here.\<close>

definition try_config ::
  "engine \<Rightarrow> unicode_db \<Rightarrow> pil_image \<Rightarrow> ustr \<Rightarrow> best \<Rightarrow> ustr \<Rightarrow> best" where
  "try_config E db processed_image lang_config b config =
     (case image_to_data E processed_image config lang_config of
        None \<Rightarrow> b
      | Some dat \<Rightarrow>
          (case collect_tokens dat [] [] of
             (text_parts, confidences) \<Rightarrow>
               if text_parts \<noteq> [] then
                 let current_text = py_strip db (py_join (lit '' '') text_parts);
                     current_confidence =
                       real_of_int (sum_list confidences) / real (length confidences) / 100
                 in if current_confidence > best_confidence b
                    then \<lparr>best_text = current_text, best_confidence = current_confidence,
                          best_config = config\<rparr>
                    else b
               else b))"

definition config_search :: "engine \<Rightarrow> unicode_db \<Rightarrow> pil_image \<Rightarrow> ustr \<Rightarrow> best" where
  "config_search E db processed_image lang_config =
     foldl (try_config E db processed_image lang_config)
       \<lparr>best_text = [], best_confidence = 0, best_config = []\<rparr> configs"

text \<open>\<^verbatim>\<open>'+'.join(languages) if languages else 'eng'\<close> (an absent list is an empty one).\<close>

definition lang_config_of :: "ustr list \<Rightarrow> ustr" where
  "lang_config_of languages =
     (if languages \<noteq> [] then py_join (lit ''+'') languages else lit ''eng'')"

definition extract_text_with_tesseract ::
  "engine \<Rightarrow> unicode_db \<Rightarrow> (nat \<Rightarrow> real) \<Rightarrow> world \<Rightarrow> bytes \<Rightarrow> nat \<Rightarrow> ustr list
     \<Rightarrow> ocr_result \<times> world" where
  "extract_text_with_tesseract E db clk w0 image_data page_num languages =
     (let w = emit (EvOcrCall page_num) w0
      in if \<not> TESSERACT_AVAILABLE E then
           (\<lparr>r_text = lit ''[Tesseract OCR not available - install Tesseract OCR engine]'',
             r_confidence = 0, r_page = page_num, r_bbox = [0, 0, 100, 100],
             r_chunk_type = lit ''ocr_unavailable'', r_language = lit ''unknown'',
             r_processing_time = 0\<rparr>, w)
         else
           (case image_open E image_data of
              Inl e \<Rightarrow>
                (\<lparr>r_text = lit ''[OCR error: '' @ e @ lit '']'',
                  r_confidence = 0.1, r_page = page_num, r_bbox = [0, 0, 100, 100],
                  r_chunk_type = lit ''ocr_error'', r_language = lit ''unknown'',
                  r_processing_time = 0\<rparr>, w)
            | Inr img \<Rightarrow>
                let processed_image = preprocess_image_for_ocr E img;
                    lang_config = lang_config_of languages;
                    (start_time, w) = time_time clk w;
                    b = config_search E db processed_image lang_config;
                    (btext, bconf) =
                      (if best_text b = [] then
                         (case image_to_string E processed_image (lit ''--psm 6'') lang_config of
                            Some s \<Rightarrow> (py_strip db s, 0.5)
                          | None \<Rightarrow>
                              (lit ''[OCR processing failed for image on page ''
                                 @ str_of_nat page_num @ lit '']'', 0.1))
                       else (best_text b, best_confidence b));
                    (end_time, w) = time_time clk w
                in (\<lparr>r_text = btext, r_confidence = bconf, r_page = page_num,
                     r_bbox = [0, 0, real (im_width img), real (im_height img)],
                     r_chunk_type = lit ''ocr_text'', r_language = lang_config,
                     r_processing_time = end_time - start_time\<rparr>, w)))"

text \<open>
  One attempt as the specification words it: the tokens of a configuration whose
  confidence exceeds 30, joined with single spaces (the source trims the joined
  text), scored by the mean of their confidences over 100. A configuration that fails
  or keeps no token makes no attempt.
\<close>

definition kept_tokens :: "(ustr \<times> real) list \<Rightarrow> (ustr \<times> real) list" where
  "kept_tokens dat = filter (\<lambda>tc. py_int (snd tc) > 30) dat"

definition spec_attempt ::
  "engine \<Rightarrow> unicode_db \<Rightarrow> pil_image \<Rightarrow> ustr \<Rightarrow> ustr \<Rightarrow> best option" where
  "spec_attempt E db img lang_config config =
     (case image_to_data E img config lang_config of
        None \<Rightarrow> None
      | Some dat \<Rightarrow>
          if kept_tokens dat = [] then None
          else Some \<lparr>best_text = py_strip db (py_join (lit '' '') (map fst (kept_tokens dat))),
                     best_confidence =
                       real_of_int (sum_list (map (\<lambda>tc. py_int (snd tc)) (kept_tokens dat)))
                         / real (length (kept_tokens dat)) / 100,
                     best_config = config\<rparr>)"

definition spec_attempts :: "engine \<Rightarrow> unicode_db \<Rightarrow> pil_image \<Rightarrow> ustr \<Rightarrow> best list" where
  "spec_attempts E db img lang_config =
     List.map_filter (spec_attempt E db img lang_config) configs"

text \<open>The update of the search: a later attempt replaces the best only when strictly better.\<close>

definition keep_better :: "best \<Rightarrow> best \<Rightarrow> best" where
  "keep_better b a = (if best_confidence a > best_confidence b then a else b)"

section \<open>Page decomposer\<close>

text \<open>The dictionaries built by \<^verbatim>\<open>extract_text_from_pdf_comprehensive\<close>.\<close>

record image =
  data :: bytes
  img_bbox :: "real list"
  index :: nat
  img_width :: nat
  img_height :: nat

record page_data =
  pd_page_num :: nat
  pd_text_blocks :: "block list"
  pd_images :: "image list"
  pd_width :: real
  pd_height :: real
  pd_error :: "ustr option"

text \<open>
  \<^verbatim>\<open>for img_index, img in enumerate(image_list)\<close>: an image whose pixmap raises is
  skipped, and so is one with four or more colour channels. The field \<open>data\<close> holds the
  PNG bytes themselves: the source stores their base64 text and decodes it again before
  use, which gives the same bytes back.
\<close>

fun extract_images_loop :: "raw_image list \<Rightarrow> nat \<Rightarrow> image list \<Rightarrow> image list" where
  "extract_images_loop [] img_index images = images"
| "extract_images_loop (img # rest) img_index images =
     (case ri_pixmap img of
        Inl e \<Rightarrow> extract_images_loop rest (Suc img_index) images
      | Inr pix \<Rightarrow>
          if pix_n pix - pix_alpha pix < 4 then
            extract_images_loop rest (Suc img_index)
              (images @ [\<lparr>data = pix_png pix, img_bbox = ri_rect img, index = img_index,
                           img_width = pix_width pix, img_height = pix_height pix\<rparr>])
          else extract_images_loop rest (Suc img_index) images)"

text \<open>
  \<^verbatim>\<open>for page_num in range(len(doc))\<close>: each page is taken apart under its own handler;
  a page that raises is replaced by an empty entry that carries the error.
\<close>

fun decompose_pages ::
  "(ustr + raw_page) list \<Rightarrow> nat \<Rightarrow> page_data list \<Rightarrow> world \<Rightarrow> page_data list \<times> world" where
  "decompose_pages [] page_num pages_data w = (pages_data, w)"
| "decompose_pages (p # rest) page_num pages_data w0 =
     (let w = emit (EvDecomposePage page_num) w0
      in case p of
           Inr pg \<Rightarrow>
             decompose_pages rest (Suc page_num)
               (pages_data @ [\<lparr>pd_page_num = page_num + 1, pd_text_blocks = rp_blocks pg,
                                pd_images = extract_images_loop (rp_images pg) 0 [],
                                pd_width = rp_width pg, pd_height = rp_height pg,
                                pd_error = None\<rparr>]) w
         | Inl e \<Rightarrow>
             decompose_pages rest (Suc page_num)
               (pages_data @ [\<lparr>pd_page_num = page_num + 1, pd_text_blocks = [],
                                pd_images = [], pd_width = 0, pd_height = 0,
                                pd_error = Some e\<rparr>]) w)"

definition extract_text_from_pdf_comprehensive ::
  "engine \<Rightarrow> world \<Rightarrow> bytes \<Rightarrow> (ustr + page_data list) \<times> world" where
  "extract_text_from_pdf_comprehensive E w pdf_data =
     (case fitz_open E pdf_data of
        Inl e \<Rightarrow> (Inl e, w)
      | Inr doc \<Rightarrow>
          (case decompose_pages doc 0 [] w of (pages_data, w') \<Rightarrow> (Inr pages_data, w')))"

section \<open>Chunk assembler\<close>

record TextChunk =
  c_text :: ustr
  c_confidence :: real
  c_page :: nat
  c_bbox :: "real list"
  c_chunk_type :: ustr
  c_language :: "ustr option"

text \<open>An exception that leaves a function: an \<^verbatim>\<open>HTTPException\<close> or any other one.\<close>

datatype exn = HTTPException nat ustr | PyException ustr

definition MAX_FILE_SIZE :: nat where
  "MAX_FILE_SIZE = 50 * 1024 * 1024"

definition MAX_PAGES_PER_REQUEST :: nat where
  "MAX_PAGES_PER_REQUEST = 100"

text \<open>
  The body of \<^verbatim>\<open>for line in block["lines"]\<close>, on the pair of \<^verbatim>\<open>page_text\<close> and
  \<^verbatim>\<open>all_chunks\<close>; 10 is the newline and 32 the space.
\<close>

definition line_step ::
  "unicode_db \<Rightarrow> bool \<Rightarrow> nat \<Rightarrow> ustr \<times> TextChunk list \<Rightarrow> line \<Rightarrow> ustr \<times> TextChunk list" where
  "line_step db preserve_layout page_num st lin =
     (case st of (page_text, all_chunks) \<Rightarrow>
        let line_text = concat (spans lin)
        in if py_strip db line_text \<noteq> [] then
             ((if preserve_layout then page_text @ line_text @ [10]
               else page_text @ line_text @ [32]),
              all_chunks @ [\<lparr>c_text = py_strip db line_text, c_confidence = 0.95,
                              c_page = page_num, c_bbox = line_bbox lin,
                              c_chunk_type = lit ''text'', c_language = None\<rparr>])
           else (page_text, all_chunks))"

definition block_step ::
  "unicode_db \<Rightarrow> bool \<Rightarrow> nat \<Rightarrow> ustr \<times> TextChunk list \<Rightarrow> block \<Rightarrow> ustr \<times> TextChunk list" where
  "block_step db preserve_layout page_num st blk =
     (case blk of
        None \<Rightarrow> st
      | Some lns \<Rightarrow> foldl (line_step db preserve_layout page_num) st lns)"

text \<open>
  The chunk built from an OCR result, and the body of
  \<^verbatim>\<open>for img_data in page_data["images"]\<close> on \<^verbatim>\<open>page_text\<close>, \<^verbatim>\<open>all_chunks\<close>,
  \<^verbatim>\<open>extracted_languages\<close> and the state. Nothing in the body raises on the values the
  decomposer produces, so its handler has no branch here.
\<close>

definition ocr_chunk :: "nat \<Rightarrow> ocr_result \<Rightarrow> TextChunk" where
  "ocr_chunk page_num r =
     \<lparr>c_text = r_text r, c_confidence = r_confidence r, c_page = page_num, c_bbox = r_bbox r,
      c_chunk_type = r_chunk_type r, c_language = Some (r_language r)\<rparr>"

definition image_step ::
  "engine \<Rightarrow> unicode_db \<Rightarrow> (nat \<Rightarrow> real) \<Rightarrow> bool \<Rightarrow> nat \<Rightarrow> ustr list
     \<Rightarrow> ustr \<times> TextChunk list \<times> ustr set \<times> world \<Rightarrow> image
     \<Rightarrow> ustr \<times> TextChunk list \<times> ustr set \<times> world" where
  "image_step E db clk preserve_layout page_num languages st img_data =
     (case st of (page_text, all_chunks, extracted_languages, w) \<Rightarrow>
        (case extract_text_with_tesseract E db clk w (data img_data) page_num languages of
           (ocr_result, w') \<Rightarrow>
             if py_strip db (r_text ocr_result) \<noteq> [] then
               ((if preserve_layout then page_text @ [10] @ r_text ocr_result @ [10]
                 else page_text @ r_text ocr_result @ [32]),
                all_chunks @ [ocr_chunk page_num ocr_result],
                (if r_language ocr_result \<noteq> []
                 then insert (r_language ocr_result) extracted_languages
                 else extracted_languages),
                w')
             else (page_text, all_chunks, extracted_languages, w')))"

text \<open>The variables of \<^verbatim>\<open>process_pdf_comprehensive\<close> that live across pages.\<close>

record assembly =
  all_text :: ustr
  all_chunks :: "TextChunk list"
  has_images :: bool
  extracted_languages :: "ustr set"

text \<open>The body of \<^verbatim>\<open>for page_data in pages_data\<close>.\<close>

definition page_step ::
  "engine \<Rightarrow> unicode_db \<Rightarrow> (nat \<Rightarrow> real) \<Rightarrow> bool \<Rightarrow> ustr list \<Rightarrow> bool
     \<Rightarrow> assembly \<times> world \<Rightarrow> page_data \<Rightarrow> assembly \<times> world" where
  "page_step E db clk extract_images languages preserve_layout st pd =
     (case st of (a, w) \<Rightarrow>
        if pd_error pd \<noteq> None then (a, w)
        else
          (case foldl (block_step db preserve_layout (pd_page_num pd)) ([], all_chunks a)
                  (pd_text_blocks pd) of
             (page_text, chunks) \<Rightarrow>
               (case (if extract_images \<and> pd_images pd \<noteq> [] then
                        (case foldl (image_step E db clk preserve_layout (pd_page_num pd) languages)
                                (page_text, chunks, extracted_languages a, w) (pd_images pd) of
                           (pt, ch, lg, w') \<Rightarrow> (pt, ch, True, lg, w'))
                      else (page_text, chunks, has_images a, extracted_languages a, w)) of
                  (page_text', chunks', has_images', languages', w') \<Rightarrow>
                    (\<lparr>all_text = all_text a @ lit ''\<newline>--- PAGE '' @ str_of_nat (pd_page_num pd)
                                   @ lit '' ---\<newline>'' @ page_text' @ [10],
                      all_chunks = chunks', has_images = has_images',
                      extracted_languages = languages'\<rparr>, w'))))"

text \<open>
  The dictionary \<^verbatim>\<open>process_pdf_comprehensive\<close> and \<^verbatim>\<open>process_image_comprehensive\<close>
  return. \<^verbatim>\<open>list(extracted_languages)\<close> enumerates the set in the interpreter's order,
  the engine's \<open>set_order\<close>.
\<close>

record pdf_result =
  res_text :: ustr
  res_chunks :: "TextChunk list"
  res_pages :: nat
  res_quality_score :: real
  res_word_count :: nat
  res_character_count :: nat
  res_has_tables :: bool
  res_has_images :: bool
  res_language :: ustr
  res_extracted_languages :: "ustr list"

definition process_pdf_comprehensive ::
  "engine \<Rightarrow> unicode_db \<Rightarrow> (nat \<Rightarrow> real) \<Rightarrow> world \<Rightarrow> bytes \<Rightarrow> bool \<Rightarrow> bool \<Rightarrow> real
     \<Rightarrow> ustr list \<Rightarrow> bool \<Rightarrow> (exn + pdf_result) \<times> world" where
  "process_pdf_comprehensive E db clk w0 pdf_data extract_tables extract_images
       confidence_threshold languages preserve_layout =
     (case extract_text_from_pdf_comprehensive E w0 pdf_data of
        (Inl e, w) \<Rightarrow> (Inl (PyException e), w)
      | (Inr pages_data, w) \<Rightarrow>
          if length pages_data > MAX_PAGES_PER_REQUEST then
            (Inl (HTTPException 413
                   (lit ''Too many pages (max '' @ str_of_nat MAX_PAGES_PER_REQUEST @ lit '')'')), w)
          else
            (case foldl (page_step E db clk extract_images languages preserve_layout)
                    (\<lparr>all_text = [], all_chunks = [], has_images = False,
                      extracted_languages = {}\<rparr>, w) pages_data of
               (a, w') \<Rightarrow>
                 let word_count = count_words db False (all_text a);
                     character_count = length (all_text a);
                     quality_score = calculate_quality_score_comprehensive db (all_text a);
                     detected_languages = detect_languages_comprehensive db (all_text a)
                 in (Inr \<lparr>res_text = all_text a, res_chunks = all_chunks a,
                          res_pages = length pages_data, res_quality_score = quality_score,
                          res_word_count = word_count, res_character_count = character_count,
                          res_has_tables = False, res_has_images = has_images a,
                          res_language = (case detected_languages of [] \<Rightarrow> lit ''unknown''
                                          | l # ls \<Rightarrow> l),
                          res_extracted_languages = set_order E (extracted_languages a)\<rparr>,
                     w')))"

definition process_image_comprehensive ::
  "engine \<Rightarrow> unicode_db \<Rightarrow> (nat \<Rightarrow> real) \<Rightarrow> world \<Rightarrow> bytes \<Rightarrow> bool \<Rightarrow> bool \<Rightarrow> real
     \<Rightarrow> ustr list \<Rightarrow> (exn + pdf_result) \<times> world" where
  "process_image_comprehensive E db clk w0 image_data extract_tables extract_images
       confidence_threshold languages =
     (case extract_text_with_tesseract E db clk w0 image_data 1 languages of
        (r, w) \<Rightarrow>
          let txt = r_text r;
              word_count = count_words db False txt;
              character_count = length txt;
              quality_score = calculate_quality_score_comprehensive db txt;
              detected_languages = detect_languages_comprehensive db txt
          in (Inr \<lparr>res_text = txt, res_chunks = [ocr_chunk 1 r], res_pages = 1,
                   res_quality_score = quality_score, res_word_count = word_count,
                   res_character_count = character_count, res_has_tables = False,
                   res_has_images = True,
                   res_language = (case detected_languages of [] \<Rightarrow> lit ''unknown''
                                   | l # ls \<Rightarrow> l),
                   res_extracted_languages = (if r_language r \<noteq> [] then [r_language r] else [])\<rparr>,
              w))"

section \<open>The extraction endpoint\<close>

record OCRResponse =
  o_success :: bool
  o_text :: ustr
  o_chunks :: "TextChunk list"
  o_pages :: nat
  o_processing_time :: real
  o_method :: ustr
  o_quality_score :: real
  o_word_count :: nat
  o_character_count :: nat
  o_has_tables :: bool
  o_has_images :: bool
  o_language :: ustr
  o_extracted_languages :: "ustr list"
  o_file_hash :: ustr
  o_error :: "ustr option"
  o_warnings :: "ustr list"

definition check_tesseract_installation :: "engine \<Rightarrow> bool \<times> ustr" where
  "check_tesseract_installation E =
     (if \<not> TESSERACT_AVAILABLE E then (False, lit ''pytesseract not installed'')
      else if \<not> TESSERACT_CONFIGURED E then
        (False, lit ''Tesseract not configured - run install_tesseract_project.py'')
      else
        (case get_tesseract_version E of
           Inl e \<Rightarrow> (False, e)
         | Inr v \<Rightarrow> (True, (case v of Some s \<Rightarrow> s | None \<Rightarrow> lit ''unknown''))))"

text \<open>
  \<^verbatim>\<open>[lang.strip() for lang in languages.split(',') if lang.strip()]\<close>, with
  \<^verbatim>\<open>['eng']\<close> for an empty list.
\<close>

definition parse_languages :: "unicode_db \<Rightarrow> ustr \<Rightarrow> ustr list" where
  "parse_languages db languages =
     (let lang_list = map (py_strip db) (filter (\<lambda>l. py_strip db l \<noteq> []) (py_split 44 languages))
      in if lang_list = [] then [lit ''eng''] else lang_list)"

text \<open>The response built in the handler of an unexpected exception.\<close>

definition failure_response :: "ustr \<Rightarrow> real \<Rightarrow> ustr list \<Rightarrow> OCRResponse" where
  "failure_response e elapsed warnings =
     \<lparr>o_success = False, o_text = [], o_chunks = [], o_pages = 0, o_processing_time = elapsed,
      o_method = lit ''comprehensive-tesseract-ocr'', o_quality_score = 0, o_word_count = 0,
      o_character_count = 0, o_has_tables = False, o_has_images = False,
      o_language = lit ''unknown'', o_extracted_languages = [], o_file_hash = [],
      o_error = Some e, o_warnings = warnings\<rparr>"

text \<open>
  \<^verbatim>\<open>extract_text\<close>. The upload is its bytes and its content type, which may be absent
  (\<^verbatim>\<open>file_type.lower()\<close> then raises an \<^verbatim>\<open>AttributeError\<close>, caught by the general
  handler). An \<^verbatim>\<open>HTTPException\<close> leaves the function; any other exception becomes a
  failure response.
\<close>

definition extract_text ::
  "engine \<Rightarrow> unicode_db \<Rightarrow> (nat \<Rightarrow> real) \<Rightarrow> world \<Rightarrow> bytes \<Rightarrow> ustr option \<Rightarrow> bool \<Rightarrow> bool
     \<Rightarrow> real \<Rightarrow> ustr \<Rightarrow> bool \<Rightarrow> (exn + OCRResponse) \<times> world" where
  "extract_text E db clk w0 file_data content_type extract_tables extract_images
       confidence_threshold languages preserve_layout =
     (case time_time clk w0 of (start_time, w1) \<Rightarrow>
        if file_data = [] then (Inl (HTTPException 400 (lit ''Empty file'')), w1)
        else if length file_data > MAX_FILE_SIZE then
          (Inl (HTTPException 413
                 (lit ''File too large (max '' @ str_of_nat (MAX_FILE_SIZE div (1024 * 1024))
                    @ lit ''MB)'')), w1)
        else
          let file_hash = sha256_hexdigest E file_data;
              lang_list = parse_languages db languages;
              warnings = (case check_tesseract_installation E of
                            (tesseract_available, tesseract_error) \<Rightarrow>
                              if \<not> tesseract_available
                              then [lit ''Tesseract OCR not available: '' @ tesseract_error]
                              else []);
              (outcome, w2) =
                (case content_type of
                   None \<Rightarrow>
                     (Inl (PyException ([39] @ lit ''NoneType'' @ [39] @ lit '' object has no attribute ''
                            @ [39] @ lit ''lower'' @ [39])), w1)
                 | Some file_type \<Rightarrow>
                     if contains (lower db file_type) (lit ''pdf'') then
                       process_pdf_comprehensive E db clk w1 file_data extract_tables
                         extract_images confidence_threshold lang_list preserve_layout
                     else if contains (lower db file_type) (lit ''image'') then
                       process_image_comprehensive E db clk w1 file_data extract_tables
                         extract_images confidence_threshold lang_list
                     else (Inl (HTTPException 400 (lit ''Unsupported file type'')), w1))
          in (case outcome of
               Inr result \<Rightarrow>
                 (case time_time clk w2 of (end_time, w3) \<Rightarrow>
                    (Inr \<lparr>o_success = True, o_text = res_text result,
                          o_chunks = res_chunks result, o_pages = res_pages result,
                          o_processing_time = end_time - start_time,
                          o_method = lit ''comprehensive-tesseract-ocr'',
                          o_quality_score = res_quality_score result,
                          o_word_count = res_word_count result,
                          o_character_count = res_character_count result,
                          o_has_tables = res_has_tables result,
                          o_has_images = res_has_images result,
                          o_language = res_language result,
                          o_extracted_languages = res_extracted_languages result,
                          o_file_hash = file_hash, o_error = None, o_warnings = warnings\<rparr>, w3))
             | Inl (HTTPException status detail) \<Rightarrow> (Inl (HTTPException status detail), w2)
             | Inl (PyException e) \<Rightarrow>
                 (case time_time clk w2 of (end_time, w3) \<Rightarrow>
                    (Inr (failure_response e (end_time - start_time) warnings), w3))))"

section \<open>Descriptions the statements refer to\<close>

text \<open>
  The lines of a page's text blocks in reading order, the chunk of one line, and the
  chunks of the lines that are not blank: what the loops over blocks and lines append.
\<close>

definition block_lines :: "block list \<Rightarrow> line list" where
  "block_lines blocks = concat (map (\<lambda>b. case b of None \<Rightarrow> [] | Some lns \<Rightarrow> lns) blocks)"

definition text_chunk :: "unicode_db \<Rightarrow> nat \<Rightarrow> line \<Rightarrow> TextChunk" where
  "text_chunk db page_num lin =
     \<lparr>c_text = py_strip db (concat (spans lin)), c_confidence = 0.95, c_page = page_num,
      c_bbox = line_bbox lin, c_chunk_type = lit ''text'', c_language = None\<rparr>"

definition spec_text_chunks :: "unicode_db \<Rightarrow> nat \<Rightarrow> block list \<Rightarrow> TextChunk list" where
  "spec_text_chunks db page_num blocks =
     map (text_chunk db page_num)
       (filter (\<lambda>lin. py_strip db (concat (spans lin)) \<noteq> []) (block_lines blocks))"

definition spec_line_text :: "unicode_db \<Rightarrow> bool \<Rightarrow> block list \<Rightarrow> ustr" where
  "spec_line_text db pl blocks =
     concat (map (\<lambda>lin. concat (spans lin) @ [if pl then 10 else 32])
       (filter (\<lambda>lin. py_strip db (concat (spans lin)) \<noteq> []) (block_lines blocks)))"

text \<open>
  The OCR result of one image apart from its processing time (the clock reads zero),
  and what the loop over a page's images appends: a chunk, the text and the language of
  every result whose text is not blank.
\<close>

definition ocr_of :: "engine \<Rightarrow> unicode_db \<Rightarrow> nat \<Rightarrow> ustr list \<Rightarrow> image \<Rightarrow> ocr_result" where
  "ocr_of E db page_num languages img =
     fst (extract_text_with_tesseract E db (\<lambda>n. 0) \<lparr>ticks = 0, trace = []\<rparr> (data img)
            page_num languages)"

definition spec_ocr_chunks ::
  "engine \<Rightarrow> unicode_db \<Rightarrow> nat \<Rightarrow> ustr list \<Rightarrow> image list \<Rightarrow> TextChunk list" where
  "spec_ocr_chunks E db page_num languages imgs =
     map (ocr_chunk page_num)
       (filter (\<lambda>r. py_strip db (r_text r) \<noteq> []) (map (ocr_of E db page_num languages) imgs))"

definition spec_ocr_languages ::
  "engine \<Rightarrow> unicode_db \<Rightarrow> nat \<Rightarrow> ustr list \<Rightarrow> image list \<Rightarrow> ustr set" where
  "spec_ocr_languages E db page_num languages imgs =
     r_language ` {r \<in> set (map (ocr_of E db page_num languages) imgs).
                     py_strip db (r_text r) \<noteq> [] \<and> r_language r \<noteq> []}"

definition spec_ocr_text :: "engine \<Rightarrow> unicode_db \<Rightarrow> bool \<Rightarrow> nat \<Rightarrow> ustr list \<Rightarrow> image list \<Rightarrow> ustr" where
  "spec_ocr_text E db pl page_num languages imgs =
     concat (map (\<lambda>r. if pl then [10] @ r_text r @ [10] else r_text r @ [32])
       (filter (\<lambda>r. py_strip db (r_text r) \<noteq> []) (map (ocr_of E db page_num languages) imgs)))"

text \<open>
  The chunks one page contributes, and the variables of the assembler after one page.
\<close>

definition spec_page_chunks ::
  "engine \<Rightarrow> unicode_db \<Rightarrow> bool \<Rightarrow> ustr list \<Rightarrow> page_data \<Rightarrow> TextChunk list" where
  "spec_page_chunks E db extract_images languages pd =
     (if pd_error pd \<noteq> None then []
      else spec_text_chunks db (pd_page_num pd) (pd_text_blocks pd)
           @ (if extract_images
              then spec_ocr_chunks E db (pd_page_num pd) languages (pd_images pd) else []))"

definition spec_page ::
  "engine \<Rightarrow> unicode_db \<Rightarrow> bool \<Rightarrow> ustr list \<Rightarrow> bool \<Rightarrow> assembly \<Rightarrow> page_data \<Rightarrow> assembly" where
  "spec_page E db extract_images languages pl a pd =
     (if pd_error pd \<noteq> None then a
      else
        \<lparr>all_text = all_text a @ lit ''\<newline>--- PAGE '' @ str_of_nat (pd_page_num pd)
                      @ lit '' ---\<newline>'' @ spec_line_text db pl (pd_text_blocks pd)
                      @ (if extract_images
                         then spec_ocr_text E db pl (pd_page_num pd) languages (pd_images pd)
                         else [])
                      @ [10],
          all_chunks = all_chunks a @ spec_page_chunks E db extract_images languages pd,
          has_images = (has_images a \<or> (extract_images \<and> pd_images pd \<noteq> [])),
          extracted_languages = extracted_languages a
             \<union> (if extract_images
                 then spec_ocr_languages E db (pd_page_num pd) languages (pd_images pd)
                 else {})\<rparr>)"

definition assembly0 :: assembly where
  "assembly0 = \<lparr>all_text = [], all_chunks = [], has_images = False, extracted_languages = {}\<rparr>"

text \<open>The result dictionary built from the assembler's variables.\<close>

definition result_of :: "engine \<Rightarrow> unicode_db \<Rightarrow> nat \<Rightarrow> assembly \<Rightarrow> pdf_result" where
  "result_of E db n a =
     \<lparr>res_text = all_text a, res_chunks = all_chunks a, res_pages = n,
      res_quality_score = calculate_quality_score_comprehensive db (all_text a),
      res_word_count = count_words db False (all_text a),
      res_character_count = length (all_text a),
      res_has_tables = False, res_has_images = has_images a,
      res_language = (case detect_languages_comprehensive db (all_text a) of
                        [] \<Rightarrow> lit ''unknown'' | l # ls \<Rightarrow> l),
      res_extracted_languages = set_order E (extracted_languages a)\<rparr>"

text \<open>
  The page's chunks as the specification's sentence has them: one chunk for every line
  and one for every image.
\<close>

definition claimed_page_chunks ::
  "engine \<Rightarrow> unicode_db \<Rightarrow> ustr list \<Rightarrow> page_data \<Rightarrow> TextChunk list" where
  "claimed_page_chunks E db languages pd =
     map (text_chunk db (pd_page_num pd)) (block_lines (pd_text_blocks pd))
     @ map (\<lambda>img. ocr_chunk (pd_page_num pd) (ocr_of E db (pd_page_num pd) languages img))
         (pd_images pd)"

text \<open>The result of an OCR call while the engine is unavailable.\<close>

definition unavailable_result :: "nat \<Rightarrow> ocr_result" where
  "unavailable_result page_num =
     \<lparr>r_text = lit ''[Tesseract OCR not available - install Tesseract OCR engine]'',
      r_confidence = 0, r_page = page_num, r_bbox = [0, 0, 100, 100],
      r_chunk_type = lit ''ocr_unavailable'', r_language = lit ''unknown'',
      r_processing_time = 0\<rparr>"

text \<open>An outcome of the endpoint with its processing time set to zero.\<close>

definition erase_time :: "exn + OCRResponse \<Rightarrow> exn + OCRResponse" where
  "erase_time out = (case out of Inl e \<Rightarrow> Inl e | Inr r \<Rightarrow> Inr (r\<lparr>o_processing_time := 0\<rparr>))"

text \<open>
  Two engines that answer alike but for the wording of the decoder's failures: what two
  runs of the service on one installation can differ in.
\<close>

definition engines_agree :: "engine \<Rightarrow> engine \<Rightarrow> bool" where
  "engines_agree E E' =
     (TESSERACT_AVAILABLE E = TESSERACT_AVAILABLE E'
      \<and> TESSERACT_CONFIGURED E = TESSERACT_CONFIGURED E'
      \<and> get_tesseract_version E = get_tesseract_version E'
      \<and> preprocess_image_for_ocr E = preprocess_image_for_ocr E'
      \<and> image_to_data E = image_to_data E'
      \<and> image_to_string E = image_to_string E'
      \<and> fitz_open E = fitz_open E'
      \<and> sha256_hexdigest E = sha256_hexdigest E'
      \<and> set_order E = set_order E'
      \<and> (\<forall>d. case image_open E d of
                 Inl e \<Rightarrow> (case image_open E' d of Inl e' \<Rightarrow> True | Inr i' \<Rightarrow> False)
               | Inr i \<Rightarrow> image_open E' d = Inr i))"

section \<open>A concrete engine for running the model\<close>

text \<open>
  An engine to evaluate the model on: the empty byte string does not decode; the image
  with bytes \<open>[1]\<close> carries text (the first configuration fails, the second and third
  tie at 0.85, the fourth scores lower, the fifth finds nothing); the image with bytes
  \<open>[2]\<close> is blank; on any other image every call of the engine fails. Sets of language
  tags are enumerated with "eng" before "unknown".
\<close>

text \<open>
  The documents the sample parser knows, by their first byte: 1, one page with the two
  text lines "Invoice #100" and "Total: $50.00"; 2, one page with one blank line and
  one blank image; 3, one page with a single image of 640 by 480 pixels; 4, three pages
  of which the second cannot be read; 5, 101 empty pages. Anything else does not open.
\<close>

definition text_page :: raw_page where
  "text_page =
     \<lparr>rp_blocks = [Some [\<lparr>spans = [lit ''Invoice '', lit ''#100''], line_bbox = [72, 72, 200, 84]\<rparr>,
                         \<lparr>spans = [lit ''Total: $50.00''], line_bbox = [72, 90, 200, 102]\<rparr>],
                   None],
      rp_images = [], rp_width = 612, rp_height = 792\<rparr>"

definition image_page :: "bytes \<Rightarrow> block list \<Rightarrow> raw_page" where
  "image_page png blocks =
     \<lparr>rp_blocks = blocks,
      rp_images = [\<lparr>ri_rect = [0, 640, 480, 8],
                    ri_pixmap = Inr \<lparr>pix_n = 3, pix_alpha = 0, pix_png = png,
                                     pix_width = 640, pix_height = 480\<rparr>\<rparr>],
      rp_width = 612, rp_height = 792\<rparr>"

definition empty_page :: raw_page where
  "empty_page = \<lparr>rp_blocks = [], rp_images = [], rp_width = 612, rp_height = 792\<rparr>"

definition sample_parse :: "bytes \<Rightarrow> ustr + (ustr + raw_page) list" where
  "sample_parse d =
     (case d of
        [] \<Rightarrow> Inl (lit ''cannot open empty document'')
      | b # bs \<Rightarrow>
          if b = 1 then Inr [Inr text_page]
          else if b = 2 then
            Inr [Inr (image_page [2] [Some [\<lparr>spans = [lit ''  ''], line_bbox = [0, 0, 1, 1]\<rparr>]])]
          else if b = 3 then Inr [Inr (image_page [1] [])]
          else if b = 4 then Inr [Inr text_page, Inl (lit ''bad page''), Inr (image_page [1] [])]
          else if b = 5 then Inr (replicate 101 (Inr empty_page))
          else Inl (lit ''cannot open broken document''))"

definition sample_engine :: engine where
  "sample_engine =
     \<lparr> TESSERACT_AVAILABLE = True,
       TESSERACT_CONFIGURED = True,
       get_tesseract_version = Inr (Some (lit ''5.3.0'')),
       image_open = (\<lambda>d. if d = [] then Inl (lit ''cannot identify image file'')
                          else Inr \<lparr>im_width = 640, im_height = 480, im_pixels = d\<rparr>),
       preprocess_image_for_ocr = (\<lambda>i. i),
       image_to_data = (\<lambda>i c l.
          if im_pixels i = [1] then
            (if c = lit ''--psm 3'' then Some [(lit ''Hello'', 90), (lit ''x'', 20), (lit ''World'', 80)]
             else if c = lit ''--psm 1'' then Some [(lit ''Hi'', 85)]
             else if c = lit ''--psm 4'' then Some [(lit ''a'', 40.5)]
             else if c = lit ''--psm 8'' then Some []
             else None)
          else if im_pixels i = [2] then Some []
          else None),
       image_to_string = (\<lambda>i c l. if im_pixels i = [2] then Some (lit ''  '') else None),
       fitz_open = (\<lambda>d. sample_parse d),
       sha256_hexdigest = (\<lambda>d. lit ''00''),
       set_order = (\<lambda>S. filter (\<lambda>l. l \<in> S) [lit ''eng'', lit ''unknown'']) \<rparr>"


text \<open>
  The initial state, the sample engine with the import-time flag off, the image of the
  sample documents as the decomposer records it, a page with one blank line and one
  blank image, and a page with two text lines and one image that carries text.
\<close>

definition world0 :: world where
  "world0 = \<lparr>ticks = 0, trace = []\<rparr>"

definition unavailable_engine :: engine where
  "unavailable_engine = sample_engine\<lparr>TESSERACT_AVAILABLE := False\<rparr>"

definition sample_img :: image where
  "sample_img = \<lparr>data = [1], img_bbox = [0, 640, 480, 8], index = 0,
                  img_width = 640, img_height = 480\<rparr>"

definition blank_page_data :: page_data where
  "blank_page_data =
     \<lparr>pd_page_num = 1,
      pd_text_blocks = [Some [\<lparr>spans = [lit ''  ''], line_bbox = [0, 0, 1, 1]\<rparr>]],
      pd_images = [\<lparr>data = [2], img_bbox = [0, 640, 480, 8], index = 0,
                    img_width = 640, img_height = 480\<rparr>],
      pd_width = 612, pd_height = 792, pd_error = None\<rparr>"

definition mixed_page_data :: page_data where
  "mixed_page_data =
     \<lparr>pd_page_num = 1,
      pd_text_blocks = rp_blocks text_page,
      pd_images = [\<lparr>data = [1], img_bbox = [0, 640, 480, 8], index = 0,
                    img_width = 640, img_height = 480\<rparr>],
      pd_width = 612, pd_height = 792, pd_error = None\<rparr>"

text \<open>
  The sample engine with a decoder that fails on every input and words the failure
  with the address of the object it was given, and the sample engine whose packages
  import while the Tesseract binary is missing: the version probe and every recognition
  call fail.
\<close>

definition undecodable_engine :: "nat \<Rightarrow> engine" where
  "undecodable_engine address =
     sample_engine\<lparr>image_open :=
       (\<lambda>d. Inl (lit ''cannot identify image file <_io.BytesIO object at ''
                    @ str_of_nat address @ lit ''>''))\<rparr>"

definition probe_failing_engine :: engine where
  "probe_failing_engine =
     sample_engine\<lparr>get_tesseract_version := Inl (lit ''tesseract is not installed''),
                    image_to_data := (\<lambda>i c l. None),
                    image_to_string := (\<lambda>i c l. None)\<rparr>"

section \<open>Properties of the quality scorer\<close>

lemma quality_nonempty: "\<not> length (py_strip db txt) < 5 \<Longrightarrow> txt \<noteq> []"
  by (auto simp: py_strip_def)

lemma score_steps:
  fixes p a w :: real and n m :: nat
  shows "(let score = p * 0.3;
              score = (if a \<ge> 0.4 then score + 0.4 else score + a);
              score = (if n > 500 then score + 0.1 else if n > 100 then score + 0.05 else score);
              score = (if m \<ge> 3 then score + 0.2 else score);
              score = (if w > 0.3 then score - 0.1 else score)
          in min 1 (max 0 score)) =
         min 1 (max 0 (p * 0.3 + (if a \<ge> 0.4 then 0.4 else a)
            + (if n > 500 then 0.1 else if n > 100 then 0.05 else 0)
            + (if m \<ge> 3 then 0.2 else 0) - (if w > 0.3 then 0.1 else 0)))"
  unfolding Let_def by (intro arg_cong[where f="min 1"] arg_cong[where f="max 0"]) simp

lemma quality_score_eq:
  "calculate_quality_score_comprehensive db txt =
     (if length (py_strip db txt) < 5 then 0 else min 1 (max 0 (spec_quality_sum db txt)))"
proof (cases "length (py_strip db txt) < 5")
  case True
  then show ?thesis by (simp add: calculate_quality_score_comprehensive_def)
next
  case False
  then have ne: "txt \<noteq> []" by (rule quality_nonempty)
  show ?thesis using False ne
    unfolding calculate_quality_score_comprehensive_def spec_quality_sum_def Let_def
    by (simp only: score_steps[unfolded Let_def] length_0_conv if_False simp_thms)
qed

lemma clamp01: "0 \<le> min 1 (max 0 (x::real)) \<and> min 1 (max 0 x) \<le> 1"
  by simp

text \<open>
  C2. For every string the scorer returns 0 when the trimmed length is under 5, and
  otherwise the clamp to [0,1] of: printable ratio times 0.3, plus 0.4 when the
  alphanumeric ratio is at least 0.4 and the ratio itself otherwise, plus the length
  bonus (0.1 above 500 characters, 0.05 above 100), plus 0.2 when at least three of the
  four patterns match, minus 0.1 when the whitespace ratio exceeds 0.3. The result is a
  function of the string and the character tables alone and lies in [0,1].
\<close>

theorem C2_quality_score:
  "calculate_quality_score_comprehensive db txt =
     (if length (py_strip db txt) < 5 then 0 else min 1 (max 0 (spec_quality_sum db txt)))
   \<and> 0 \<le> calculate_quality_score_comprehensive db txt
   \<and> calculate_quality_score_comprehensive db txt \<le> 1"
proof -
  have "0 \<le> calculate_quality_score_comprehensive db txt
        \<and> calculate_quality_score_comprehensive db txt \<le> 1"
    unfolding quality_score_eq using clamp01 by simp
  then show ?thesis using quality_score_eq by simp
qed

lemma quality_sample_score:
  "calculate_quality_score_comprehensive ascii_db (lit ''Total 50 of. The'') = 9 / 10"
  by code_simp

lemma quality_sample_length: "\<not> length (py_strip ascii_db (lit ''Total 50 of. The'')) < 5"
  by code_simp

lemma quality_short_length: "length (py_strip ascii_db (lit ''  ab  '')) < 5"
  by code_simp

theorem C2_quality_score_witness:
  "min 1 (max 0 (spec_quality_sum ascii_db (lit ''Total 50 of. The''))) = 9 / 10
   \<and> calculate_quality_score_comprehensive ascii_db (lit ''  ab  '') = 0"
  using C2_quality_score [of ascii_db "lit ''Total 50 of. The''"]
        C2_quality_score [of ascii_db "lit ''  ab  ''"]
        quality_sample_score quality_sample_length quality_short_length
  by simp

section \<open>Properties of the language detector\<close>







section \<open>Properties of the OCR configuration search\<close>

text \<open>On an integer confidence \<^verbatim>\<open>int()\<close> changes nothing, so the test is on the confidence itself.\<close>

lemma py_int_of_int: "py_int (real_of_int k) = k"
  by (simp add: py_int_def)

lemma kept_tokens_integer:
  "\<forall>tc \<in> set dat. \<exists>k. snd tc = real_of_int k \<Longrightarrow>
     kept_tokens dat = filter (\<lambda>tc. snd tc > 30) dat"
proof -
  assume a: "\<forall>tc \<in> set dat. \<exists>k. snd tc = real_of_int k"
  have "(30 < py_int (snd tc)) = (30 < snd tc)" if mem: "tc \<in> set dat" for tc
  proof -
    obtain k where k: "snd tc = real_of_int k" using a mem by blast
    show ?thesis unfolding k py_int_of_int by simp
  qed
  then show ?thesis unfolding kept_tokens_def by (intro filter_cong) auto
qed

lemma collect_tokens_eq:
  "collect_tokens dat tp cf =
     (tp @ map fst (kept_tokens dat), cf @ map (\<lambda>tc. py_int (snd tc)) (kept_tokens dat))"
  by (induction dat tp cf rule: collect_tokens.induct) (auto simp: kept_tokens_def Let_def)


lemma try_config_eq:
  "try_config E db img lang b c =
     (case spec_attempt E db img lang c of None \<Rightarrow> b | Some a \<Rightarrow> keep_better b a)"
  by (auto simp: try_config_def spec_attempt_def collect_tokens_eq keep_better_def Let_def
           split: option.splits)

lemma foldl_try_config:
  "foldl (try_config E db img lang) b cs =
     foldl keep_better b (List.map_filter (spec_attempt E db img lang) cs)"
  by (induction cs arbitrary: b) (auto simp: try_config_eq List.map_filter_simps split: option.splits)

lemma foldl_keep_better:
  "(foldl keep_better b as = b \<and> (\<forall>a \<in> set as. best_confidence a \<le> best_confidence b))
   \<or> (\<exists>i < length as. foldl keep_better b as = as ! i
         \<and> best_confidence b < best_confidence (as ! i)
         \<and> (\<forall>j < length as. best_confidence (as ! j) \<le> best_confidence (as ! i))
         \<and> (\<forall>j < i. best_confidence (as ! j) < best_confidence (as ! i)))"
proof (induction as rule: rev_induct)
  case Nil
  then show ?case by simp
next
  case (snoc a as)
  let ?r = "foldl keep_better b as"
  show ?case
  proof (cases "best_confidence a > best_confidence ?r")
    case True
    then have r: "foldl keep_better b (as @ [a]) = a" by (simp add: keep_better_def)
    have le: "best_confidence b \<le> best_confidence ?r"
      using snoc.IH by auto
    have all: "\<forall>j < length as. best_confidence (as ! j) \<le> best_confidence ?r"
      using snoc.IH by (auto simp: all_set_conv_all_nth)
    have "length as < length (as @ [a])" by simp
    moreover have "foldl keep_better b (as @ [a]) = (as @ [a]) ! length as" using r by simp
    moreover have "best_confidence b < best_confidence ((as @ [a]) ! length as)"
      using le True by simp
    moreover have "\<forall>j < length (as @ [a]). best_confidence ((as @ [a]) ! j) \<le> best_confidence ((as @ [a]) ! length as)"
      using all True by (auto simp: nth_append less_Suc_eq)
    moreover have "\<forall>j < length as. best_confidence ((as @ [a]) ! j) < best_confidence ((as @ [a]) ! length as)"
      using all True by (auto simp: nth_append)
    ultimately show ?thesis by blast
  next
    case False
    then have r: "foldl keep_better b (as @ [a]) = ?r" by (simp add: keep_better_def)
    from snoc.IH show ?thesis
    proof
      assume h: "?r = b \<and> (\<forall>a \<in> set as. best_confidence a \<le> best_confidence b)"
      then show ?thesis using False r by auto
    next
      assume "\<exists>i < length as. ?r = as ! i
         \<and> best_confidence b < best_confidence (as ! i)
         \<and> (\<forall>j < length as. best_confidence (as ! j) \<le> best_confidence (as ! i))
         \<and> (\<forall>j < i. best_confidence (as ! j) < best_confidence (as ! i))"
      then obtain i where i: "i < length as" "?r = as ! i"
         "best_confidence b < best_confidence (as ! i)"
         "\<forall>j < length as. best_confidence (as ! j) \<le> best_confidence (as ! i)"
         "\<forall>j < i. best_confidence (as ! j) < best_confidence (as ! i)" by blast
      have "i < length (as @ [a])" using i by simp
      moreover have "foldl keep_better b (as @ [a]) = (as @ [a]) ! i" using r i by (simp add: nth_append)
      moreover have "best_confidence b < best_confidence ((as @ [a]) ! i)" using i by (simp add: nth_append)
      moreover have "\<forall>j < length (as @ [a]). best_confidence ((as @ [a]) ! j) \<le> best_confidence ((as @ [a]) ! i)"
        using i False by (auto simp: nth_append less_Suc_eq)
      moreover have "\<forall>j < i. best_confidence ((as @ [a]) ! j) < best_confidence ((as @ [a]) ! i)"
        using i by (auto simp: nth_append)
      ultimately show ?thesis by blast
    qed
  qed
qed

lemma sum_list_gt:
  "xs \<noteq> [] \<Longrightarrow> \<forall>x \<in> set xs. (30::int) < x \<Longrightarrow> 30 * int (length xs) < sum_list xs"
proof (induction xs)
  case Nil then show ?case by simp
next
  case (Cons x xs)
  then show ?case by (cases "xs = []") auto
qed

lemma sum_list_le:
  "\<forall>x \<in> set xs. x \<le> (100::int) \<Longrightarrow> sum_list xs \<le> 100 * int (length xs)"
  by (induction xs) auto

lemma attempt_conf_pos:
  assumes "spec_attempt E db img lang c = Some a"
  shows "3 / 10 < best_confidence a"
proof -
  obtain dat where d: "image_to_data E img c lang = Some dat" "kept_tokens dat \<noteq> []"
    and a: "best_confidence a = real_of_int (sum_list (map (\<lambda>tc. py_int (snd tc)) (kept_tokens dat)))
                         / real (length (kept_tokens dat)) / 100"
    using assms by (auto simp: spec_attempt_def split: option.splits if_splits)
  let ?xs = "map (\<lambda>tc. py_int (snd tc)) (kept_tokens dat)"
  have "30 * int (length ?xs) < sum_list ?xs"
    using d(2) by (intro sum_list_gt) (auto simp: kept_tokens_def)
  then have "30 * real (length ?xs) < real_of_int (sum_list ?xs)"
    by (metis of_int_less_iff of_int_mult of_int_numeral of_int_of_nat_eq)
  moreover have "0 < real (length (kept_tokens dat))" using d(2) by simp
  ultimately have "30 < real_of_int (sum_list ?xs) / real (length (kept_tokens dat))"
    by (simp add: pos_less_divide_eq)
  then show ?thesis unfolding a by simp
qed


lemma py_int_le: "x \<le> 100 \<Longrightarrow> py_int x \<le> 100"
  by (auto simp: py_int_def floor_le_iff ceiling_le_iff)

lemma attempt_conf_le1:
  assumes "spec_attempt E db img lang c = Some a"
      and "\<forall>img c lang dat. image_to_data E img c lang = Some dat \<longrightarrow> (\<forall>tc \<in> set dat. snd tc \<le> 100)"
  shows "best_confidence a \<le> 1"
proof -
  obtain dat where d: "image_to_data E img c lang = Some dat" "kept_tokens dat \<noteq> []"
    and a: "best_confidence a = real_of_int (sum_list (map (\<lambda>tc. py_int (snd tc)) (kept_tokens dat)))
                         / real (length (kept_tokens dat)) / 100"
    using assms(1) by (auto simp: spec_attempt_def split: option.splits if_splits)
  let ?xs = "map (\<lambda>tc. py_int (snd tc)) (kept_tokens dat)"
  have "\<forall>tc \<in> set dat. snd tc \<le> 100" using assms(2) d(1) by blast
  then have "\<forall>x \<in> set ?xs. x \<le> 100" by (auto simp: kept_tokens_def py_int_le)
  then have "sum_list ?xs \<le> 100 * int (length ?xs)" by (rule sum_list_le)
  then have "real_of_int (sum_list ?xs) \<le> 100 * real (length ?xs)"
    by (metis of_int_le_iff of_int_mult of_int_numeral of_int_of_nat_eq)
  moreover have "0 < real (length (kept_tokens dat))" using d(2) by simp
  ultimately have "real_of_int (sum_list ?xs) / real (length (kept_tokens dat)) \<le> 100"
    by (simp add: pos_divide_le_eq)
  then show ?thesis unfolding a by simp
qed

lemma config_search_eq:
  "config_search E db img lang =
     foldl keep_better \<lparr>best_text = [], best_confidence = 0, best_config = []\<rparr>
       (spec_attempts E db img lang)"
  by (simp add: config_search_def spec_attempts_def foldl_try_config)

lemma spec_attempts_mem:
  "a \<in> set (spec_attempts E db img lang) \<Longrightarrow>
     \<exists>c \<in> set configs. spec_attempt E db img lang c = Some a"
  by (auto simp: spec_attempts_def List.map_filter_def)

lemma config_search_cases:
  "(spec_attempts E db img lang = [] \<and>
      config_search E db img lang = \<lparr>best_text = [], best_confidence = 0, best_config = []\<rparr>)
   \<or> (\<exists>i < length (spec_attempts E db img lang).
         config_search E db img lang = spec_attempts E db img lang ! i
         \<and> (\<forall>j < length (spec_attempts E db img lang).
               best_confidence (spec_attempts E db img lang ! j)
                 \<le> best_confidence (spec_attempts E db img lang ! i))
         \<and> (\<forall>j < i. best_confidence (spec_attempts E db img lang ! j)
                 < best_confidence (spec_attempts E db img lang ! i)))"
proof -
  let ?b0 = "\<lparr>best_text = [], best_confidence = 0, best_config = []\<rparr>"
  let ?as = "spec_attempts E db img lang"
  have pos: "\<forall>a \<in> set ?as. 0 < best_confidence a"
  proof
    fix a assume "a \<in> set ?as"
    then obtain c where "spec_attempt E db img lang c = Some a"
      using spec_attempts_mem by blast
    then have "3 / 10 < best_confidence a" by (rule attempt_conf_pos)
    then show "0 < best_confidence a" by simp
  qed
  from foldl_keep_better [of ?b0 ?as] show ?thesis
  proof
    assume h: "foldl keep_better ?b0 ?as = ?b0 \<and> (\<forall>a \<in> set ?as. best_confidence a \<le> best_confidence ?b0)"
    have "?as = []"
    proof (rule ccontr)
      assume "?as \<noteq> []"
      then obtain a where a: "a \<in> set ?as" by (cases ?as) auto
      then have "0 < best_confidence a" using pos by blast
      moreover have "best_confidence a \<le> 0" using h a by auto
      ultimately show False by simp
    qed
    then show ?thesis using h by (simp add: config_search_eq)
  next
    assume "\<exists>i < length ?as. foldl keep_better ?b0 ?as = ?as ! i
         \<and> best_confidence ?b0 < best_confidence (?as ! i)
         \<and> (\<forall>j < length ?as. best_confidence (?as ! j) \<le> best_confidence (?as ! i))
         \<and> (\<forall>j < i. best_confidence (?as ! j) < best_confidence (?as ! i))"
    then show ?thesis unfolding config_search_eq by blast
  qed
qed





lemma search_conf_cases:
  "best_text (config_search E db img lang) = [] \<or>
   (\<exists>a \<in> set (spec_attempts E db img lang). config_search E db img lang = a)"
  using config_search_cases [of E db img lang] by (auto simp: in_set_conv_nth)

lemma ocr_confidence_cases:
  "r_confidence (fst (extract_text_with_tesseract E db clk w image_data page_num languages)) = 0
   \<or> r_confidence (fst (extract_text_with_tesseract E db clk w image_data page_num languages)) = 1 / 10
   \<or> r_confidence (fst (extract_text_with_tesseract E db clk w image_data page_num languages)) = 1 / 2
   \<or> (\<exists>img a. image_open E image_data = Inr img
         \<and> a \<in> set (spec_attempts E db (preprocess_image_for_ocr E img) (lang_config_of languages))
         \<and> r_confidence (fst (extract_text_with_tesseract E db clk w image_data page_num languages))
             = best_confidence a)"
proof (cases "TESSERACT_AVAILABLE E")
  case False
  then show ?thesis by (simp add: extract_text_with_tesseract_def Let_def)
next
  case True
  show ?thesis
  proof (cases "image_open E image_data")
    case (Inl e)
    then show ?thesis using True by (simp add: extract_text_with_tesseract_def Let_def)
  next
    case (Inr img)
    let ?b = "config_search E db (preprocess_image_for_ocr E img) (lang_config_of languages)"
    show ?thesis
    proof (cases "best_text ?b = []")
      case True
      then show ?thesis using \<open>TESSERACT_AVAILABLE E\<close> Inr
        by (simp add: extract_text_with_tesseract_def Let_def time_time_def split: option.splits)
    next
      case False
      then obtain a where a: "a \<in> set (spec_attempts E db (preprocess_image_for_ocr E img) (lang_config_of languages))"
          "?b = a"
        using search_conf_cases [of E db "preprocess_image_for_ocr E img" "lang_config_of languages"] by blast
      have "r_confidence (fst (extract_text_with_tesseract E db clk w image_data page_num languages))
             = best_confidence a"
        using False \<open>TESSERACT_AVAILABLE E\<close> Inr a(2)
        by (simp add: extract_text_with_tesseract_def Let_def time_time_def)
      then show ?thesis using a(1) Inr by blast
    qed
  qed
qed

text \<open>
  C7. For every image, page number and language list, when the engine reports token
  confidences of at most 100 (its interface), the confidence returned by
  \<^verbatim>\<open>extract_text_with_tesseract\<close> lies in [0,1]: it is 0 (engine unavailable), 0.1
  (degraded or error result), 0.5 (plain-text fallback), or the score of one of the
  attempts of the configuration search.
\<close>

theorem C7_confidence_range:
  assumes "\<forall>img c lang dat. image_to_data E img c lang = Some dat \<longrightarrow> (\<forall>tc \<in> set dat. snd tc \<le> 100)"
  shows "0 \<le> r_confidence (fst (extract_text_with_tesseract E db clk w image_data page_num languages))
   \<and> r_confidence (fst (extract_text_with_tesseract E db clk w image_data page_num languages)) \<le> 1
   \<and> (r_confidence (fst (extract_text_with_tesseract E db clk w image_data page_num languages)) = 0
      \<or> r_confidence (fst (extract_text_with_tesseract E db clk w image_data page_num languages)) = 1 / 10
      \<or> r_confidence (fst (extract_text_with_tesseract E db clk w image_data page_num languages)) = 1 / 2
      \<or> (\<exists>img a. image_open E image_data = Inr img
         \<and> a \<in> set (spec_attempts E db (preprocess_image_for_ocr E img) (lang_config_of languages))
         \<and> r_confidence (fst (extract_text_with_tesseract E db clk w image_data page_num languages))
             = best_confidence a))"
proof -
  let ?c = "r_confidence (fst (extract_text_with_tesseract E db clk w image_data page_num languages))"
  have range: "0 \<le> best_confidence a \<and> best_confidence a \<le> 1"
    if mem: "a \<in> set (spec_attempts E db i l)" for a i l
  proof -
    obtain c where c: "spec_attempt E db i l c = Some a"
      using mem spec_attempts_mem by blast
    have "3 / 10 < best_confidence a" using c by (rule attempt_conf_pos)
    moreover have "best_confidence a \<le> 1" using c assms by (rule attempt_conf_le1)
    ultimately show ?thesis by simp
  qed
  from ocr_confidence_cases [of E db clk w image_data page_num languages]
  have "0 \<le> ?c \<and> ?c \<le> 1" using range by auto
  then show ?thesis using ocr_confidence_cases [of E db clk w image_data page_num languages] by blast
qed

lemma sample_engine_conf:
  "\<forall>img c lang dat. image_to_data sample_engine img c lang = Some dat \<longrightarrow> (\<forall>tc \<in> set dat. snd tc \<le> 100)"
  by (auto simp: sample_engine_def split: if_splits)

lemma sample_ocr_confidence:
  "r_confidence (fst (extract_text_with_tesseract sample_engine ascii_db (\<lambda>n. real n) \<lparr>ticks = 0, trace = []\<rparr> [1] 1 [lit ''eng''])) = 85 / 100"
  by code_simp

theorem C7_confidence_range_witness:
  "r_confidence (fst (extract_text_with_tesseract sample_engine ascii_db (\<lambda>n. real n)
      \<lparr>ticks = 0, trace = []\<rparr> [1] 1 [lit ''eng''])) = 85 / 100
   \<and> (\<exists>img a. image_open sample_engine [1] = Inr img
         \<and> a \<in> set (spec_attempts sample_engine ascii_db (preprocess_image_for_ocr sample_engine img)
                      (lang_config_of [lit ''eng'']))
         \<and> best_confidence a = 85 / 100)"
  using C7_confidence_range [OF sample_engine_conf, of ascii_db "\<lambda>n. real n"
      "\<lparr>ticks = 0, trace = []\<rparr>" "[1]" 1 "[lit ''eng'']"] sample_ocr_confidence
  by auto

section \<open>Properties of the page decomposer\<close>

lemma decompose_pages_prefix:
  "\<exists>ys. fst (decompose_pages doc n acc w) = acc @ ys \<and> length ys = length doc"
proof (induction doc arbitrary: n acc w)
  case Nil
  then show ?case by simp
next
  case (Cons p doc)
  show ?case
  proof (cases p)
    case (Inl e)
    let ?x = "\<lparr>pd_page_num = n + 1, pd_text_blocks = [], pd_images = [], pd_width = 0,
               pd_height = 0, pd_error = Some e\<rparr>"
    obtain ys where "fst (decompose_pages doc (Suc n) (acc @ [?x]) (emit (EvDecomposePage n) w)) = (acc @ [?x]) @ ys"
      "length ys = length doc" using Cons.IH by blast
    then show ?thesis using Inl by (auto simp: Let_def)
  next
    case (Inr pg)
    let ?x = "\<lparr>pd_page_num = n + 1, pd_text_blocks = rp_blocks pg,
                                pd_images = extract_images_loop (rp_images pg) 0 [],
                                pd_width = rp_width pg, pd_height = rp_height pg,
                                pd_error = None\<rparr>"
    obtain ys where "fst (decompose_pages doc (Suc n) (acc @ [?x]) (emit (EvDecomposePage n) w)) = (acc @ [?x]) @ ys"
      "length ys = length doc" using Cons.IH by blast
    then show ?thesis using Inr by (auto simp: Let_def)
  qed
qed

lemma decompose_pages_length:
  "length (fst (decompose_pages doc n acc w)) = length acc + length doc"
  using decompose_pages_prefix [of doc n acc w] by auto

lemma decompose_pages_keeps:
  "i < length acc \<Longrightarrow> fst (decompose_pages doc n acc w) ! i = acc ! i"
  using decompose_pages_prefix [of doc n acc w] by (auto simp: nth_append)

lemma decompose_pages_nth:
  "i < length doc \<Longrightarrow>
   fst (decompose_pages doc n acc w) ! (length acc + i) =
     (case doc ! i of
        Inr pg \<Rightarrow> \<lparr>pd_page_num = n + i + 1, pd_text_blocks = rp_blocks pg,
                    pd_images = extract_images_loop (rp_images pg) 0 [],
                    pd_width = rp_width pg, pd_height = rp_height pg, pd_error = None\<rparr>
      | Inl e \<Rightarrow> \<lparr>pd_page_num = n + i + 1, pd_text_blocks = [], pd_images = [], pd_width = 0,
                    pd_height = 0, pd_error = Some e\<rparr>)"
proof (induction doc arbitrary: n acc w i)
  case Nil
  then show ?case by simp
next
  case (Cons p doc)
  show ?case
  proof (cases i)
    case 0
    then show ?thesis
      by (cases p) (simp_all add: Let_def decompose_pages_keeps)
  next
    case (Suc j)
    then have j: "j < length doc" using Cons.prems by simp
    show ?thesis
    proof (cases p)
      case (Inl e)
      then show ?thesis using Suc Cons.IH [OF j, of "Suc n" "acc @ [\<lparr>pd_page_num = n + 1, pd_text_blocks = [], pd_images = [], pd_width = 0,
               pd_height = 0, pd_error = Some e\<rparr>]" "emit (EvDecomposePage n) w"]
        by (simp add: Let_def split: sum.split)
    next
      case (Inr pg)
      then show ?thesis using Suc Cons.IH [OF j, of "Suc n" "acc @ [\<lparr>pd_page_num = n + 1, pd_text_blocks = rp_blocks pg,
                                pd_images = extract_images_loop (rp_images pg) 0 [],
                                pd_width = rp_width pg, pd_height = rp_height pg,
                                pd_error = None\<rparr>]" "emit (EvDecomposePage n) w"]
        by (simp add: Let_def split: sum.split)
    qed
  qed
qed

lemma decompose_pages_world:
  "snd (decompose_pages doc n acc w) =
     w\<lparr>trace := trace w @ map EvDecomposePage [n ..< n + length doc]\<rparr>"
proof (induction doc arbitrary: n acc w)
  case Nil
  then show ?case by simp
next
  case (Cons p doc)
  have up: "[n ..< n + length (p # doc)] = n # [Suc n ..< Suc n + length doc]"
    using upt_conv_Cons [of n "n + length (p # doc)"] by (simp del: upt_Suc)
  show ?case unfolding up
    by (cases p) (simp_all add: Let_def Cons.IH emit_def del: upt_Suc)
qed

lemma extract_pdf_ok:
  assumes "fitz_open E d = Inr doc"
  shows "extract_text_from_pdf_comprehensive E w d =
           (Inr (fst (decompose_pages doc 0 [] w)),
            w\<lparr>trace := trace w @ map EvDecomposePage [0 ..< length doc]\<rparr>)"
  using assms decompose_pages_world [of doc 0 "[]" w]
  by (cases "decompose_pages doc 0 [] w") (simp add: extract_text_from_pdf_comprehensive_def)

lemma decompose_pages_fst_indep:
  "fst (decompose_pages doc n acc w) = fst (decompose_pages doc n acc w')"
proof (induction doc arbitrary: n acc w w')
  case Nil
  then show ?case by simp
next
  case (Cons p doc)
  show ?case by (cases p) (simp_all add: Let_def Cons.IH [of _ _ "emit _ w" "emit _ w'"])
qed

section \<open>The OCR result and the clock\<close>

lemma ocr_erase:
  "(fst (extract_text_with_tesseract E db clk w d pn ls))\<lparr>r_processing_time := 0\<rparr> =
   (fst (extract_text_with_tesseract E db clk' w' d pn ls))\<lparr>r_processing_time := 0\<rparr>"
  by (simp add: extract_text_with_tesseract_def Let_def time_time_def
           split: sum.splits option.splits prod.splits)

lemma ocr_chunk_erase: "ocr_chunk pn (r\<lparr>r_processing_time := t\<rparr>) = ocr_chunk pn r"
  by (simp add: ocr_chunk_def)

lemma ocr_fields:
  "r_text (fst (extract_text_with_tesseract E db clk w d pn ls)) =
     r_text (fst (extract_text_with_tesseract E db clk' w' d pn ls))"
  "r_language (fst (extract_text_with_tesseract E db clk w d pn ls)) =
     r_language (fst (extract_text_with_tesseract E db clk' w' d pn ls))"
  "ocr_chunk pn (fst (extract_text_with_tesseract E db clk w d pn ls)) =
     ocr_chunk pn (fst (extract_text_with_tesseract E db clk' w' d pn ls))"
proof -
  let ?r = "fst (extract_text_with_tesseract E db clk w d pn ls)"
  let ?r' = "fst (extract_text_with_tesseract E db clk' w' d pn ls)"
  have e: "?r\<lparr>r_processing_time := 0\<rparr> = ?r'\<lparr>r_processing_time := 0\<rparr>" by (rule ocr_erase)
  have "r_text (?r\<lparr>r_processing_time := 0\<rparr>) = r_text (?r'\<lparr>r_processing_time := 0\<rparr>)"
    using e by simp
  then show "r_text ?r = r_text ?r'" by simp
  have "r_language (?r\<lparr>r_processing_time := 0\<rparr>) = r_language (?r'\<lparr>r_processing_time := 0\<rparr>)"
    using e by simp
  then show "r_language ?r = r_language ?r'" by simp
  have "ocr_chunk pn (?r\<lparr>r_processing_time := 0\<rparr>) = ocr_chunk pn (?r'\<lparr>r_processing_time := 0\<rparr>)"
    using e by simp
  then show "ocr_chunk pn ?r = ocr_chunk pn ?r'" by (simp only: ocr_chunk_erase)
qed

lemma ocr_world_trace:
  "trace (snd (extract_text_with_tesseract E db clk w d pn ls)) = trace w @ [EvOcrCall pn]"
  by (simp add: extract_text_with_tesseract_def Let_def time_time_def emit_def
           split: sum.splits option.splits prod.splits)

lemma ocr_bbox_cases:
  "(r_chunk_type (fst (extract_text_with_tesseract E db clk w d pn ls)) = lit ''ocr_text''
      \<and> (\<exists>im. image_open E d = Inr im
            \<and> r_bbox (fst (extract_text_with_tesseract E db clk w d pn ls))
                = [0, 0, real (im_width im), real (im_height im)]))
   \<or> ((r_chunk_type (fst (extract_text_with_tesseract E db clk w d pn ls)) = lit ''ocr_unavailable''
        \<or> r_chunk_type (fst (extract_text_with_tesseract E db clk w d pn ls)) = lit ''ocr_error'')
       \<and> r_bbox (fst (extract_text_with_tesseract E db clk w d pn ls)) = [0, 0, 100, 100])"
  by (simp add: extract_text_with_tesseract_def Let_def time_time_def
           split: sum.splits option.splits prod.splits)

lemma unavailable_ocr:
  "\<not> TESSERACT_AVAILABLE E \<Longrightarrow>
     fst (extract_text_with_tesseract E db clk w d pn ls) = unavailable_result pn"
  by (simp add: extract_text_with_tesseract_def unavailable_result_def Let_def)

lemma unavailable_ocr_chunk:
  "ocr_chunk 1 (fst (extract_text_with_tesseract unavailable_engine ascii_db (\<lambda>n. real n) world0
                       (data sample_img) 1 [lit ''eng'']))
   = ocr_chunk 1 (unavailable_result 1)"
  by (simp add: extract_text_with_tesseract_def unavailable_engine_def sample_engine_def
        unavailable_result_def Let_def)

section \<open>Properties of the chunk assembler\<close>

lemma foldl_line_step:
  "snd (foldl (line_step db pl pn) (pt, ch) lns) =
     ch @ map (text_chunk db pn) (filter (\<lambda>lin. py_strip db (concat (spans lin)) \<noteq> []) lns)"
  by (induction lns arbitrary: pt ch) (auto simp: line_step_def text_chunk_def Let_def)

lemma foldl_block_step:
  "snd (foldl (block_step db pl pn) (pt, ch) blocks) = ch @ spec_text_chunks db pn blocks"
proof (induction blocks arbitrary: pt ch)
  case Nil
  then show ?case by (simp add: spec_text_chunks_def block_lines_def)
next
  case (Cons b blocks)
  show ?case
  proof (cases b)
    case None
    then show ?thesis using Cons.IH [of pt ch]
      by (simp add: block_step_def spec_text_chunks_def block_lines_def)
  next
    case (Some lns)
    obtain pt' ch' where f: "foldl (line_step db pl pn) (pt, ch) lns = (pt', ch')"
      by (cases "foldl (line_step db pl pn) (pt, ch) lns")
    have ch': "ch' = ch @ map (text_chunk db pn) (filter (\<lambda>lin. py_strip db (concat (spans lin)) \<noteq> []) lns)"
      using foldl_line_step [of db pl pn pt ch lns] f by simp
    show ?thesis using Some f ch' Cons.IH [of pt' ch']
      by (simp add: block_step_def spec_text_chunks_def block_lines_def)
  qed
qed

lemma foldl_line_step_fst:
  "fst (foldl (line_step db pl pn) (pt, ch) lns) =
     pt @ concat (map (\<lambda>lin. concat (spans lin) @ [if pl then 10 else 32])
            (filter (\<lambda>lin. py_strip db (concat (spans lin)) \<noteq> []) lns))"
  by (induction lns arbitrary: pt ch) (auto simp: line_step_def Let_def)

lemma foldl_block_step_fst:
  "fst (foldl (block_step db pl pn) (pt, ch) blocks) = pt @ spec_line_text db pl blocks"
proof (induction blocks arbitrary: pt ch)
  case Nil
  then show ?case by (simp add: spec_line_text_def block_lines_def)
next
  case (Cons b blocks)
  show ?case
  proof (cases b)
    case None
    then show ?thesis using Cons.IH [of pt ch]
      by (simp add: block_step_def spec_line_text_def block_lines_def)
  next
    case (Some lns)
    obtain pt' ch' where f: "foldl (line_step db pl pn) (pt, ch) lns = (pt', ch')"
      by (cases "foldl (line_step db pl pn) (pt, ch) lns")
    have pt': "pt' = pt @ concat (map (\<lambda>lin. concat (spans lin) @ [if pl then 10 else 32])
            (filter (\<lambda>lin. py_strip db (concat (spans lin)) \<noteq> []) lns))"
      using foldl_line_step_fst [of db pl pn pt ch lns] f by simp
    show ?thesis using Some f pt' Cons.IH [of pt' ch']
      by (simp add: block_step_def spec_line_text_def block_lines_def)
  qed
qed

lemma foldl_block_step_eq:
  "foldl (block_step db pl pn) (pt, ch) blocks =
     (pt @ spec_line_text db pl blocks, ch @ spec_text_chunks db pn blocks)"
  using foldl_block_step_fst [of db pl pn pt ch blocks] foldl_block_step [of db pl pn pt ch blocks]
  by (cases "foldl (block_step db pl pn) (pt, ch) blocks") simp

lemma spec_ocr_nil [simp]:
  "spec_ocr_chunks E db pn ls [] = []"
  "spec_ocr_text E db pl pn ls [] = []"
  "spec_ocr_languages E db pn ls [] = {}"
  by (simp_all add: spec_ocr_chunks_def spec_ocr_text_def spec_ocr_languages_def)

lemma image_step_eq:
  "image_step E db clk pl pn ls (pt, ch, lg, w) img =
     (let r = ocr_of E db pn ls img in
      if py_strip db (r_text r) \<noteq> [] then
        ((if pl then pt @ [10] @ r_text r @ [10] else pt @ r_text r @ [32]),
         ch @ [ocr_chunk pn r],
         (if r_language r \<noteq> [] then insert (r_language r) lg else lg),
         snd (extract_text_with_tesseract E db clk w (data img) pn ls))
      else (pt, ch, lg, snd (extract_text_with_tesseract E db clk w (data img) pn ls)))"
  unfolding image_step_def ocr_of_def Let_def
  using ocr_fields [where E = E and db = db and clk = clk and w = w and d = "data img"
      and pn = pn and ls = ls and clk' = "\<lambda>n. 0" and w' = "\<lparr>ticks = 0, trace = []\<rparr>"]
  by (cases "extract_text_with_tesseract E db clk w (data img) pn ls") simp

lemma foldl_image_step:
  "\<exists>w'. foldl (image_step E db clk pl pn ls) (pt, ch, lg, w) imgs =
     (pt @ spec_ocr_text E db pl pn ls imgs,
      ch @ spec_ocr_chunks E db pn ls imgs,
      lg \<union> spec_ocr_languages E db pn ls imgs,
      w')
     \<and> trace w' = trace w @ map (\<lambda>i. EvOcrCall pn) imgs"
proof (induction imgs arbitrary: pt ch lg w)
  case Nil
  then show ?case
    by (simp add: spec_ocr_text_def spec_ocr_chunks_def spec_ocr_languages_def)
next
  case (Cons img imgs)
  let ?r = "ocr_of E db pn ls img"
  let ?w = "snd (extract_text_with_tesseract E db clk w (data img) pn ls)"
  have tr: "trace ?w = trace w @ [EvOcrCall pn]" by (rule ocr_world_trace)
  show ?case
  proof (cases "py_strip db (r_text ?r) \<noteq> []")
    case True
    let ?pt = "(if pl then pt @ [10] @ r_text ?r @ [10] else pt @ r_text ?r @ [32])"
    let ?lg = "(if r_language ?r \<noteq> [] then insert (r_language ?r) lg else lg)"
    from Cons.IH [of ?pt "ch @ [ocr_chunk pn ?r]" ?lg ?w]
    obtain w' where w': "foldl (image_step E db clk pl pn ls) (?pt, ch @ [ocr_chunk pn ?r], ?lg, ?w) imgs =
       (?pt @ spec_ocr_text E db pl pn ls imgs,
        (ch @ [ocr_chunk pn ?r]) @ spec_ocr_chunks E db pn ls imgs,
        ?lg \<union> spec_ocr_languages E db pn ls imgs, w')"
       "trace w' = trace ?w @ map (\<lambda>i. EvOcrCall pn) imgs" by blast
    have "foldl (image_step E db clk pl pn ls) (pt, ch, lg, w) (img # imgs) =
       (pt @ spec_ocr_text E db pl pn ls (img # imgs),
        ch @ spec_ocr_chunks E db pn ls (img # imgs),
        lg \<union> spec_ocr_languages E db pn ls (img # imgs), w')"
      using True w'(1)
      by (auto simp: image_step_eq Let_def spec_ocr_text_def spec_ocr_chunks_def spec_ocr_languages_def)
    then show ?thesis using w'(2) tr by auto
  next
    case False
    from Cons.IH [of pt ch lg ?w]
    obtain w' where w': "foldl (image_step E db clk pl pn ls) (pt, ch, lg, ?w) imgs =
       (pt @ spec_ocr_text E db pl pn ls imgs,
        ch @ spec_ocr_chunks E db pn ls imgs,
        lg \<union> spec_ocr_languages E db pn ls imgs, w')"
       "trace w' = trace ?w @ map (\<lambda>i. EvOcrCall pn) imgs" by blast
    have "foldl (image_step E db clk pl pn ls) (pt, ch, lg, w) (img # imgs) =
       (pt @ spec_ocr_text E db pl pn ls (img # imgs),
        ch @ spec_ocr_chunks E db pn ls (img # imgs),
        lg \<union> spec_ocr_languages E db pn ls (img # imgs), w')"
      using False w'(1)
      by (auto simp: image_step_eq Let_def spec_ocr_text_def spec_ocr_chunks_def spec_ocr_languages_def)
    then show ?thesis using w'(2) tr by auto
  qed
qed

lemma page_step_eq:
  "\<exists>w'. page_step E db clk ei ls pl (a, w) pd = (spec_page E db ei ls pl a pd, w')
     \<and> trace w' = trace w @ (if pd_error pd = None \<and> ei
                               then map (\<lambda>i. EvOcrCall (pd_page_num pd)) (pd_images pd) else [])"
proof (cases "pd_error pd \<noteq> None")
  case True
  then show ?thesis by (auto simp: page_step_def spec_page_def)
next
  case False
  note noerr = this
  let ?pn = "pd_page_num pd"
  have blocks: "foldl (block_step db pl ?pn) ([], all_chunks a) (pd_text_blocks pd) =
     (spec_line_text db pl (pd_text_blocks pd), all_chunks a @ spec_text_chunks db ?pn (pd_text_blocks pd))"
    using foldl_block_step_eq [of db pl ?pn "[]" "all_chunks a" "pd_text_blocks pd"] by simp
  show ?thesis
  proof (cases "ei \<and> pd_images pd \<noteq> []")
    case True
    obtain w' where w': "foldl (image_step E db clk pl ?pn ls)
         (spec_line_text db pl (pd_text_blocks pd),
          all_chunks a @ spec_text_chunks db ?pn (pd_text_blocks pd),
          extracted_languages a, w) (pd_images pd) =
       (spec_line_text db pl (pd_text_blocks pd) @ spec_ocr_text E db pl ?pn ls (pd_images pd),
        (all_chunks a @ spec_text_chunks db ?pn (pd_text_blocks pd)) @ spec_ocr_chunks E db ?pn ls (pd_images pd),
        extracted_languages a \<union> spec_ocr_languages E db ?pn ls (pd_images pd), w')"
      "trace w' = trace w @ map (\<lambda>i. EvOcrCall ?pn) (pd_images pd)"
      using foldl_image_step by blast
    have "page_step E db clk ei ls pl (a, w) pd = (spec_page E db ei ls pl a pd, w')"
      using noerr True blocks w'(1)
      by (simp add: page_step_def spec_page_def spec_page_chunks_def)
    then show ?thesis using w'(2) noerr True by auto
  next
    case False
    have "page_step E db clk ei ls pl (a, w) pd = (spec_page E db ei ls pl a pd, w)"
      using noerr False blocks
      by (auto simp: page_step_def spec_page_def spec_page_chunks_def)
    then show ?thesis using noerr False by auto
  qed
qed

lemma foldl_page_step:
  "\<exists>w'. foldl (page_step E db clk ei ls pl) (a, w) pds = (foldl (spec_page E db ei ls pl) a pds, w')
     \<and> (\<forall>e \<in> set (trace w'). e \<in> set (trace w) \<or> (\<exists>n. e = EvOcrCall n))"
proof (induction pds arbitrary: a w)
  case Nil
  then show ?case by simp
next
  case (Cons pd pds)
  obtain w1 where w1: "page_step E db clk ei ls pl (a, w) pd = (spec_page E db ei ls pl a pd, w1)"
    "trace w1 = trace w @ (if pd_error pd = None \<and> ei
                               then map (\<lambda>i. EvOcrCall (pd_page_num pd)) (pd_images pd) else [])"
    using page_step_eq by blast
  obtain w2 where w2: "foldl (page_step E db clk ei ls pl) (spec_page E db ei ls pl a pd, w1) pds =
       (foldl (spec_page E db ei ls pl) (spec_page E db ei ls pl a pd) pds, w2)"
     "\<forall>e \<in> set (trace w2). e \<in> set (trace w1) \<or> (\<exists>n. e = EvOcrCall n)"
    using Cons.IH by blast
  have "foldl (page_step E db clk ei ls pl) (a, w) (pd # pds) =
          (foldl (spec_page E db ei ls pl) a (pd # pds), w2)"
    using w1(1) w2(1) by simp
  moreover have "\<forall>e \<in> set (trace w2). e \<in> set (trace w) \<or> (\<exists>n. e = EvOcrCall n)"
    using w2(2) w1(2) by (auto split: if_splits)
  ultimately show ?case by blast
qed

lemma foldl_spec_page_chunks:
  "all_chunks (foldl (spec_page E db ei ls pl) a pds) =
     all_chunks a @ concat (map (spec_page_chunks E db ei ls) pds)"
  by (induction pds arbitrary: a) (auto simp: spec_page_def spec_page_chunks_def)

lemma image_step_bbox_indep:
  "image_step E db clk pl pn ls st (img\<lparr>img_bbox := b\<rparr>) = image_step E db clk pl pn ls st img"
  by (simp add: image_step_def)

lemma foldl_image_step_bbox_indep:
  "foldl (image_step E db clk pl pn ls) st (map (\<lambda>i. i\<lparr>img_bbox := f i\<rparr>) imgs)
     = foldl (image_step E db clk pl pn ls) st imgs"
  by (induction imgs arbitrary: st) (simp_all add: image_step_bbox_indep)

lemma page_step_bbox_indep:
  "page_step E db clk ei ls pl st (pd\<lparr>pd_images := map (\<lambda>i. i\<lparr>img_bbox := f i\<rparr>) (pd_images pd)\<rparr>)
     = page_step E db clk ei ls pl st pd"
  by (cases st) (auto simp: page_step_def foldl_image_step_bbox_indep split: prod.splits)

section \<open>Properties of the document pipeline\<close>

lemma process_pdf_fail:
  assumes "fitz_open E d = Inl e"
  shows "process_pdf_comprehensive E db clk w d et ei ct ls pl = (Inl (PyException e), w)"
  using assms by (simp add: process_pdf_comprehensive_def extract_text_from_pdf_comprehensive_def)

lemma too_many_text: "lit ''Too many pages (max '' @ str_of_nat MAX_PAGES_PER_REQUEST @ lit '')''
   = lit ''Too many pages (max 100)''"
  by (simp add: MAX_PAGES_PER_REQUEST_def lit_def str_of_nat.simps)

lemma process_pdf_too_many:
  assumes "fitz_open E d = Inr doc" and "length doc > MAX_PAGES_PER_REQUEST"
  shows "process_pdf_comprehensive E db clk w d et ei ct ls pl =
           (Inl (HTTPException 413 (lit ''Too many pages (max 100)'')),
            w\<lparr>trace := trace w @ map EvDecomposePage [0 ..< length doc]\<rparr>)"
  using assms
  by (simp add: process_pdf_comprehensive_def extract_pdf_ok decompose_pages_length too_many_text)

lemma process_pdf_ok:
  assumes "fitz_open E d = Inr doc" and "length doc \<le> MAX_PAGES_PER_REQUEST"
  shows "\<exists>w'. process_pdf_comprehensive E db clk w d et ei ct ls pl =
           (Inr (result_of E db (length doc)
                   (foldl (spec_page E db ei ls pl) assembly0 (fst (decompose_pages doc 0 [] w)))), w')"
proof -
  let ?w1 = "w\<lparr>trace := trace w @ map EvDecomposePage [0 ..< length doc]\<rparr>"
  let ?pages = "fst (decompose_pages doc 0 [] w)"
  obtain w' where w': "foldl (page_step E db clk ei ls pl) (assembly0, ?w1) ?pages =
       (foldl (spec_page E db ei ls pl) assembly0 ?pages, w')"
    using foldl_page_step by blast
  have "process_pdf_comprehensive E db clk w d et ei ct ls pl =
           (Inr (result_of E db (length doc) (foldl (spec_page E db ei ls pl) assembly0 ?pages)), w')"
    using assms w'
    by (simp add: process_pdf_comprehensive_def extract_pdf_ok decompose_pages_length
          result_of_def assembly0_def Let_def)
  then show ?thesis by blast
qed

lemma process_pdf_indep:
  "fst (process_pdf_comprehensive E db clk w d et ei ct ls pl) =
   fst (process_pdf_comprehensive E db clk' w' d et ei ct ls pl)"
proof (cases "fitz_open E d")
  case (Inl e)
  then show ?thesis by (simp add: process_pdf_fail)
next
  case (Inr doc)
  show ?thesis
  proof (cases "length doc > MAX_PAGES_PER_REQUEST")
    case True
    then show ?thesis using Inr by (simp add: process_pdf_too_many)
  next
    case False
    then have le: "length doc \<le> MAX_PAGES_PER_REQUEST" by simp
    obtain w1 where 1: "process_pdf_comprehensive E db clk w d et ei ct ls pl =
           (Inr (result_of E db (length doc)
                   (foldl (spec_page E db ei ls pl) assembly0 (fst (decompose_pages doc 0 [] w)))), w1)"
      using process_pdf_ok [OF Inr le] by blast
    obtain w2 where 2: "process_pdf_comprehensive E db clk' w' d et ei ct ls pl =
           (Inr (result_of E db (length doc)
                   (foldl (spec_page E db ei ls pl) assembly0 (fst (decompose_pages doc 0 [] w')))), w2)"
      using process_pdf_ok [OF Inr le] by blast
    show ?thesis using 1 2 decompose_pages_fst_indep [of doc 0 "[]" w w'] by simp
  qed
qed

lemma process_image_indep:
  "fst (process_image_comprehensive E db clk w d et ei ct ls) =
   fst (process_image_comprehensive E db clk' w' d et ei ct ls)"
proof -
  obtain r w1 where 1: "extract_text_with_tesseract E db clk w d 1 ls = (r, w1)"
    by (cases "extract_text_with_tesseract E db clk w d 1 ls")
  obtain r' w2 where 2: "extract_text_with_tesseract E db clk' w' d 1 ls = (r', w2)"
    by (cases "extract_text_with_tesseract E db clk' w' d 1 ls")
  have "r_text r = r_text r'" "r_language r = r_language r'" "ocr_chunk 1 r = ocr_chunk 1 r'"
    using ocr_fields [where E = E and db = db and clk = clk and w = w and d = d
      and pn = 1 and ls = ls and clk' = clk' and w' = w'] 1 2 by simp_all
  then show ?thesis using 1 2 by (simp add: process_image_comprehensive_def Let_def)
qed

lemma extract_text_indep:
  "erase_time (fst (extract_text E db clk w fd cty et ei ct langs pl)) =
   erase_time (fst (extract_text E db clk' w' fd cty et ei ct langs pl))"
proof -
  let ?ls = "parse_languages db langs"
  let ?w1 = "w\<lparr>ticks := Suc (ticks w)\<rparr>"
  let ?w1' = "w'\<lparr>ticks := Suc (ticks w')\<rparr>"
  have pdf: "fst (process_pdf_comprehensive E db clk ?w1 fd et ei ct ?ls pl) =
             fst (process_pdf_comprehensive E db clk' ?w1' fd et ei ct ?ls pl)"
    by (rule process_pdf_indep)
  have img: "fst (process_image_comprehensive E db clk ?w1 fd et ei ct ?ls) =
             fst (process_image_comprehensive E db clk' ?w1' fd et ei ct ?ls)"
    by (rule process_image_indep)
  obtain o1 v1 where p1: "process_pdf_comprehensive E db clk ?w1 fd et ei ct ?ls pl = (o1, v1)"
    by (cases "process_pdf_comprehensive E db clk ?w1 fd et ei ct ?ls pl")
  obtain o2 v2 where p2: "process_pdf_comprehensive E db clk' ?w1' fd et ei ct ?ls pl = (o2, v2)"
    by (cases "process_pdf_comprehensive E db clk' ?w1' fd et ei ct ?ls pl")
  obtain i1 u1 where q1: "process_image_comprehensive E db clk ?w1 fd et ei ct ?ls = (i1, u1)"
    by (cases "process_image_comprehensive E db clk ?w1 fd et ei ct ?ls")
  obtain i2 u2 where q2: "process_image_comprehensive E db clk' ?w1' fd et ei ct ?ls = (i2, u2)"
    by (cases "process_image_comprehensive E db clk' ?w1' fd et ei ct ?ls")
  have o: "o1 = o2" using pdf p1 p2 by simp
  have i: "i1 = i2" using img q1 q2 by simp
  show ?thesis
    unfolding extract_text_def erase_time_def time_time_def Let_def
    using p1 p2 q1 q2 o i
    by (simp add: failure_response_def split: option.splits sum.splits exn.splits prod.splits)
qed

lemma extract_text_success:
  assumes "fd \<noteq> []" and "length fd \<le> MAX_FILE_SIZE"
      and "(if contains (lower db cty) (lit ''pdf'') then
              process_pdf_comprehensive E db clk (w\<lparr>ticks := Suc (ticks w)\<rparr>) fd et ei ct
                (parse_languages db langs) pl
            else process_image_comprehensive E db clk (w\<lparr>ticks := Suc (ticks w)\<rparr>) fd et ei ct
                (parse_languages db langs)) = (Inr r, w2)"
      and "contains (lower db cty) (lit ''pdf'') \<or> contains (lower db cty) (lit ''image'')"
  shows "\<exists>resp w'. extract_text E db clk w fd (Some cty) et ei ct langs pl = (Inr resp, w')
           \<and> o_success resp \<and> o_error resp = None
           \<and> o_chunks resp = res_chunks r \<and> o_has_images resp = res_has_images r
           \<and> o_pages resp = res_pages r
           \<and> o_warnings resp = (if \<not> fst (check_tesseract_installation E)
                then [lit ''Tesseract OCR not available: '' @ snd (check_tesseract_installation E)]
                else [])"
  using assms
  by (cases "check_tesseract_installation E")
     (auto simp: extract_text_def time_time_def Let_def split: if_splits)

lemma ocr_error_result:
  assumes "TESSERACT_AVAILABLE E" and "image_open E d = Inl e"
  shows "fst (extract_text_with_tesseract E db clk w d pn ls) =
           \<lparr>r_text = lit ''[OCR error: '' @ e @ lit '']'', r_confidence = 0.1, r_page = pn,
            r_bbox = [0, 0, 100, 100], r_chunk_type = lit ''ocr_error'',
            r_language = lit ''unknown'', r_processing_time = 0\<rparr>"
  using assms by (simp add: extract_text_with_tesseract_def Let_def)

lemma process_image_text:
  "\<exists>r w'. process_image_comprehensive E db clk w d et ei ct ls = (Inr r, w')
      \<and> res_text r = r_text (fst (extract_text_with_tesseract E db clk w d 1 ls))"
  by (cases "extract_text_with_tesseract E db clk w d 1 ls")
     (simp add: process_image_comprehensive_def Let_def)

lemma extract_text_image_text:
  assumes "fd \<noteq> []" and "length fd \<le> MAX_FILE_SIZE"
      and "\<not> contains (lower db cty) (lit ''pdf'')" and "contains (lower db cty) (lit ''image'')"
  shows "\<exists>resp w'. extract_text E db clk w fd (Some cty) et ei ct langs pl = (Inr resp, w')
           \<and> o_text resp = r_text (fst (extract_text_with_tesseract E db clk
                 (w\<lparr>ticks := Suc (ticks w)\<rparr>) fd 1 (parse_languages db langs)))"
proof -
  obtain r w2 where r: "process_image_comprehensive E db clk (w\<lparr>ticks := Suc (ticks w)\<rparr>) fd et ei ct
        (parse_languages db langs) = (Inr r, w2)"
     "res_text r = r_text (fst (extract_text_with_tesseract E db clk
                 (w\<lparr>ticks := Suc (ticks w)\<rparr>) fd 1 (parse_languages db langs)))"
    using process_image_text by blast
  show ?thesis using assms r
    by (cases "check_tesseract_installation E")
       (auto simp: extract_text_def time_time_def Let_def)
qed

section \<open>Facts about the sample documents\<close>

lemma sample_image_type:
  "\<not> contains (lower ascii_db (lit ''image/png'')) (lit ''pdf'')
   \<and> contains (lower ascii_db (lit ''image/png'')) (lit ''image'')"
  by code_simp

lemma undecodable_agree: "engines_agree (undecodable_engine 140001) (undecodable_engine 140002)"
  by (simp add: engines_agree_def undecodable_engine_def)

lemma undecodable_text:
  "\<exists>resp w'. extract_text (undecodable_engine a) ascii_db clk world0 [9] (Some (lit ''image/png''))
                 True True 0.7 (lit ''eng'') True = (Inr resp, w')
      \<and> o_text resp = lit ''[OCR error: cannot identify image file <_io.BytesIO object at ''
                        @ str_of_nat a @ lit ''>]''"
proof -
  have av: "TESSERACT_AVAILABLE (undecodable_engine a)"
    by (simp add: undecodable_engine_def sample_engine_def)
  have op: "image_open (undecodable_engine a) d =
      Inl (lit ''cannot identify image file <_io.BytesIO object at '' @ str_of_nat a @ lit ''>'')" for d
    by (simp add: undecodable_engine_def)
  obtain resp w' where r: "extract_text (undecodable_engine a) ascii_db clk world0 [9]
         (Some (lit ''image/png'')) True True 0.7 (lit ''eng'') True = (Inr resp, w')"
     "o_text resp = r_text (fst (extract_text_with_tesseract (undecodable_engine a) ascii_db clk
                 (world0\<lparr>ticks := Suc (ticks world0)\<rparr>) [9] 1 (parse_languages ascii_db (lit ''eng''))))"
    using extract_text_image_text [of "[9]" ascii_db "lit ''image/png''" "undecodable_engine a" clk world0
            True True "0.7" "lit ''eng''" True] sample_image_type
    by (auto simp: MAX_FILE_SIZE_def)
  have "o_text resp = lit ''[OCR error: cannot identify image file <_io.BytesIO object at ''
                        @ str_of_nat a @ lit ''>]''"
    unfolding r(2) ocr_error_result [OF av op] by (simp add: lit_def)
  then show ?thesis using r(1) by blast
qed

lemma probe_failing_ocr:
  "fst (extract_text_with_tesseract probe_failing_engine ascii_db (\<lambda>n. real n) world0 [1] 1 [lit ''eng''])
   = \<lparr>r_text = lit ''[OCR processing failed for image on page 1]'', r_confidence = 1 / 10,
      r_page = 1, r_bbox = [0, 0, 640, 480], r_chunk_type = lit ''ocr_text'',
      r_language = lit ''eng'', r_processing_time = 1\<rparr>"
  by code_simp

lemma sample_doc3: "fitz_open unavailable_engine [3] = Inr [Inr (image_page [1] [])]"
  by (simp add: unavailable_engine_def sample_engine_def sample_parse_def)

lemma sample_doc3_images: "extract_images_loop (rp_images (image_page [1] [])) 0 [] = [sample_img]"
  by (simp add: image_page_def sample_img_def)

lemma sample_doc4:
  "fitz_open sample_engine [4] = Inr [Inr text_page, Inl (lit ''bad page''), Inr (image_page [1] [])]"
  by (simp add: sample_engine_def sample_parse_def)

lemma sample_doc5: "fitz_open sample_engine [5] = Inr (replicate 101 (Inr empty_page))"
  by (simp add: sample_engine_def sample_parse_def)

lemma sample_doc5_length: "length (replicate 101 (Inr empty_page) :: (ustr + raw_page) list) > MAX_PAGES_PER_REQUEST"
  by (simp add: MAX_PAGES_PER_REQUEST_def)

lemma mixed_page_chunks:
  "map c_chunk_type (spec_page_chunks sample_engine ascii_db True [lit ''eng''] mixed_page_data)
     = [lit ''text'', lit ''text'', lit ''ocr_text'']"
  by code_simp

lemma blank_page_spec: "spec_page_chunks sample_engine ascii_db True [lit ''eng''] blank_page_data = []"
  by code_simp

lemma blank_page_claimed:
  "length (claimed_page_chunks sample_engine ascii_db [lit ''eng''] blank_page_data) = 2"
  by (simp add: claimed_page_chunks_def blank_page_data_def block_lines_def)

lemma sample_ocr_chunk:
  "ocr_chunk 1 (fst (extract_text_with_tesseract sample_engine ascii_db (\<lambda>n. real n) world0
                       (data sample_img) 1 [lit ''eng'']))
   = \<lparr>c_text = lit ''Hello World'', c_confidence = 85 / 100, c_page = 1,
       c_bbox = [0, 0, 640, 480], c_chunk_type = lit ''ocr_text'', c_language = Some (lit ''eng'')\<rparr>"
  by code_simp

lemma unavailable_flag: "\<not> TESSERACT_AVAILABLE unavailable_engine"
  by (simp add: unavailable_engine_def)

lemma ascii_bracket: "\<not> isspace ascii_db 91"
  by (simp add: ascii_db_def)

lemma sample_pdf_type: "contains (lower ascii_db (lit ''application/pdf'')) (lit ''pdf'')"
  by code_simp

section \<open>Chunk order within a page\<close>

text \<open>
  C3. The chunks of a page are one chunk per native text line whose text
  is not blank (type "text", confidence 0.95, the trimmed text, in block and line
  order), followed, when image extraction is requested, by one chunk per embedded image
  whose OCR text is not blank (in image order, with the text, confidence and chunk type
  of the OCR result); a page whose decomposition failed has no chunks. The chunks of a
  document result are those of its pages, in page order.
\<close>

theorem C3_page_chunks:
  "all_chunks (fst (page_step E db clk ei ls pl (a, w) pd))
     = all_chunks a @ spec_page_chunks E db ei ls pd
   \<and> (\<forall>doc r w'. fitz_open E d = Inr doc
         \<and> process_pdf_comprehensive E db clk w d et ei ct ls pl = (Inr r, w')
        \<longrightarrow> res_chunks r
              = concat (map (spec_page_chunks E db ei ls) (fst (decompose_pages doc 0 [] w))))"
proof
  obtain w' where "page_step E db clk ei ls pl (a, w) pd = (spec_page E db ei ls pl a pd, w')"
    using page_step_eq by blast
  then show "all_chunks (fst (page_step E db clk ei ls pl (a, w) pd))
     = all_chunks a @ spec_page_chunks E db ei ls pd"
    by (simp add: spec_page_def spec_page_chunks_def)
next
  show "\<forall>doc r w'. fitz_open E d = Inr doc
         \<and> process_pdf_comprehensive E db clk w d et ei ct ls pl = (Inr r, w')
        \<longrightarrow> res_chunks r
              = concat (map (spec_page_chunks E db ei ls) (fst (decompose_pages doc 0 [] w)))"
  proof (intro allI impI)
    fix doc r w'
    assume h: "fitz_open E d = Inr doc
         \<and> process_pdf_comprehensive E db clk w d et ei ct ls pl = (Inr r, w')"
    then have op: "fitz_open E d = Inr doc" and r: "process_pdf_comprehensive E db clk w d et ei ct ls pl = (Inr r, w')"
      by simp_all
    have le: "length doc \<le> MAX_PAGES_PER_REQUEST"
    proof (rule ccontr)
      assume "\<not> length doc \<le> MAX_PAGES_PER_REQUEST"
      then have "length doc > MAX_PAGES_PER_REQUEST" by simp
      then show False using process_pdf_too_many [OF op] r by simp
    qed
    obtain w2 where "process_pdf_comprehensive E db clk w d et ei ct ls pl =
           (Inr (result_of E db (length doc)
                   (foldl (spec_page E db ei ls pl) assembly0 (fst (decompose_pages doc 0 [] w)))), w2)"
      using process_pdf_ok [OF op le] by blast
    then have "r = result_of E db (length doc)
                   (foldl (spec_page E db ei ls pl) assembly0 (fst (decompose_pages doc 0 [] w)))"
      using r by simp
    then show "res_chunks r
              = concat (map (spec_page_chunks E db ei ls) (fst (decompose_pages doc 0 [] w)))"
      by (simp add: result_of_def foldl_spec_page_chunks assembly0_def)
  qed
qed

theorem C3_page_chunks_witness:
  "map c_chunk_type
     (all_chunks (fst (page_step sample_engine ascii_db (\<lambda>n. real n) True [lit ''eng''] True
                         (assembly0, world0) mixed_page_data)))
   = [lit ''text'', lit ''text'', lit ''ocr_text'']"
  using C3_page_chunks [of sample_engine ascii_db "\<lambda>n. real n" True "[lit ''eng'']" True
           assembly0 world0 mixed_page_data] mixed_page_chunks
  by (simp add: assembly0_def)

theorem C3_counterexample:
  "all_chunks (fst (page_step sample_engine ascii_db (\<lambda>n. real n) True [lit ''eng''] True
                      (assembly0, world0) blank_page_data))
   \<noteq> claimed_page_chunks sample_engine ascii_db [lit ''eng''] blank_page_data"
proof -
  obtain w' where "page_step sample_engine ascii_db (\<lambda>n. real n) True [lit ''eng''] True
                      (assembly0, world0) blank_page_data
                   = (spec_page sample_engine ascii_db True [lit ''eng''] True assembly0 blank_page_data, w')"
    using page_step_eq by blast
  then have "all_chunks (fst (page_step sample_engine ascii_db (\<lambda>n. real n) True [lit ''eng''] True
                      (assembly0, world0) blank_page_data)) = []"
    using blank_page_spec by (simp add: spec_page_def assembly0_def blank_page_data_def)
  then show ?thesis using blank_page_claimed by auto
qed

section \<open>Page count under page failures\<close>

text \<open>
  C4. For every PDF that opens, the decomposer returns one entry per page of the
  document, whatever pages fail: a failing page is replaced by an empty entry that
  carries the error. A document within the page limit always produces a result, and
  the page count of every result equals the number of pages of the document.
\<close>

theorem C4_page_count:
  assumes "fitz_open E d = Inr doc"
  shows "(\<exists>pages w'. extract_text_from_pdf_comprehensive E w d = (Inr pages, w')
            \<and> length pages = length doc
            \<and> (\<forall>i < length doc. \<forall>e. doc ! i = Inl e \<longrightarrow>
                  pages ! i = \<lparr>pd_page_num = i + 1, pd_text_blocks = [], pd_images = [],
                               pd_width = 0, pd_height = 0, pd_error = Some e\<rparr>))
     \<and> (length doc \<le> MAX_PAGES_PER_REQUEST \<longrightarrow>
          (\<exists>r w'. process_pdf_comprehensive E db clk w d et ei ct ls pl = (Inr r, w')
                   \<and> res_pages r = length doc))
     \<and> (\<forall>r w'. process_pdf_comprehensive E db clk w d et ei ct ls pl = (Inr r, w')
            \<longrightarrow> res_pages r = length doc)"
proof (intro conjI)
  let ?pages = "fst (decompose_pages doc 0 [] w)"
  have "extract_text_from_pdf_comprehensive E w d =
          (Inr ?pages, w\<lparr>trace := trace w @ map EvDecomposePage [0 ..< length doc]\<rparr>)"
    using assms by (rule extract_pdf_ok)
  moreover have "length ?pages = length doc" by (simp add: decompose_pages_length)
  moreover have "\<forall>i < length doc. \<forall>e. doc ! i = Inl e \<longrightarrow>
                  ?pages ! i = \<lparr>pd_page_num = i + 1, pd_text_blocks = [], pd_images = [],
                               pd_width = 0, pd_height = 0, pd_error = Some e\<rparr>"
    using decompose_pages_nth [of _ doc 0 "[]" w] by simp
  ultimately show "\<exists>pages w'. extract_text_from_pdf_comprehensive E w d = (Inr pages, w')
            \<and> length pages = length doc
            \<and> (\<forall>i < length doc. \<forall>e. doc ! i = Inl e \<longrightarrow>
                  pages ! i = \<lparr>pd_page_num = i + 1, pd_text_blocks = [], pd_images = [],
                               pd_width = 0, pd_height = 0, pd_error = Some e\<rparr>)"
    by blast
next
  show "length doc \<le> MAX_PAGES_PER_REQUEST \<longrightarrow>
          (\<exists>r w'. process_pdf_comprehensive E db clk w d et ei ct ls pl = (Inr r, w')
                   \<and> res_pages r = length doc)"
  proof
    assume le: "length doc \<le> MAX_PAGES_PER_REQUEST"
    obtain w' where "process_pdf_comprehensive E db clk w d et ei ct ls pl =
           (Inr (result_of E db (length doc)
                   (foldl (spec_page E db ei ls pl) assembly0 (fst (decompose_pages doc 0 [] w)))), w')"
      using process_pdf_ok [OF assms le] by blast
    moreover have "res_pages (result_of E db (length doc)
                   (foldl (spec_page E db ei ls pl) assembly0 (fst (decompose_pages doc 0 [] w)))) = length doc"
      by (simp add: result_of_def)
    ultimately show "\<exists>r w'. process_pdf_comprehensive E db clk w d et ei ct ls pl = (Inr r, w')
                   \<and> res_pages r = length doc" by blast
  qed
next
  show "\<forall>r w'. process_pdf_comprehensive E db clk w d et ei ct ls pl = (Inr r, w')
            \<longrightarrow> res_pages r = length doc"
  proof (intro allI impI)
    fix r w' assume r: "process_pdf_comprehensive E db clk w d et ei ct ls pl = (Inr r, w')"
    show "res_pages r = length doc"
    proof (cases "length doc > MAX_PAGES_PER_REQUEST")
      case True
      then show ?thesis using process_pdf_too_many [OF assms True] r by simp
    next
      case False
      then have le: "length doc \<le> MAX_PAGES_PER_REQUEST" by simp
      obtain w2 where "process_pdf_comprehensive E db clk w d et ei ct ls pl =
           (Inr (result_of E db (length doc)
                   (foldl (spec_page E db ei ls pl) assembly0 (fst (decompose_pages doc 0 [] w)))), w2)"
        using process_pdf_ok [OF assms le] by blast
      then show ?thesis using r by (auto simp: result_of_def)
    qed
  qed
qed

theorem C4_page_count_witness:
  "(\<exists>pages w'. extract_text_from_pdf_comprehensive sample_engine world0 [4] = (Inr pages, w')
      \<and> length pages = 3
      \<and> pages ! 1 = \<lparr>pd_page_num = 2, pd_text_blocks = [], pd_images = [],
                       pd_width = 0, pd_height = 0, pd_error = Some (lit ''bad page'')\<rparr>)
   \<and> (\<exists>r w'. process_pdf_comprehensive sample_engine ascii_db (\<lambda>n. real n) world0 [4]
                True True 0.7 [lit ''eng''] True = (Inr r, w')
             \<and> res_pages r = 3)"
  using C4_page_count [OF sample_doc4, of world0 ascii_db "\<lambda>n. real n" True True "0.7" "[lit ''eng'']" True]
  by (auto simp: MAX_PAGES_PER_REQUEST_def)

section \<open>The engine unavailable\<close>

lemma strip_nonblank: "\<not> isspace db c \<Longrightarrow> py_strip db (c # s) \<noteq> []"
  by (auto simp: py_strip_def dropWhile_eq_Nil_conv)

lemma unavailable_text_nonblank:
  "\<not> isspace db 91 \<Longrightarrow> py_strip db (r_text (unavailable_result pn)) \<noteq> []"
  by (simp add: unavailable_result_def lit_def strip_nonblank)

lemma block_lines_none: "\<forall>b \<in> set bs. b = None \<Longrightarrow> block_lines bs = []"
  by (induction bs) (auto simp: block_lines_def)

lemma check_unavailable:
  "\<not> TESSERACT_AVAILABLE E \<Longrightarrow>
     check_tesseract_installation E = (False, lit ''pytesseract not installed'')"
  by (simp add: check_tesseract_installation_def)

lemma unavailable_page_chunks:
  assumes "\<not> TESSERACT_AVAILABLE E" and "\<not> isspace db 91"
      and "pd_error pd = None" and "\<forall>b \<in> set (pd_text_blocks pd). b = None"
  shows "spec_page_chunks E db True ls pd =
           map (\<lambda>i. ocr_chunk (pd_page_num pd) (unavailable_result (pd_page_num pd))) (pd_images pd)"
proof -
  have o: "ocr_of E db (pd_page_num pd) ls i = unavailable_result (pd_page_num pd)" for i
    using assms(1) by (simp add: ocr_of_def unavailable_ocr)
  have "spec_ocr_chunks E db (pd_page_num pd) ls imgs =
          map (\<lambda>i. ocr_chunk (pd_page_num pd) (unavailable_result (pd_page_num pd))) imgs" for imgs
    using unavailable_text_nonblank [OF assms(2)]
    by (induction imgs) (simp_all add: spec_ocr_chunks_def o)
  then show ?thesis using assms(3,4)
    by (simp add: spec_page_chunks_def spec_text_chunks_def block_lines_none)
qed

lemma unavailable_pdf:
  assumes un: "\<not> TESSERACT_AVAILABLE E" and sp: "\<not> isspace db 91"
      and op: "fitz_open E d = Inr [Inr pg]"
      and bl: "\<forall>b \<in> set (rp_blocks pg). b = None"
      and im: "extract_images_loop (rp_images pg) 0 [] = [im]"
  shows "\<exists>r w'. process_pdf_comprehensive E db clk w d et True ct ls pl = (Inr r, w')
           \<and> res_chunks r = [ocr_chunk 1 (unavailable_result 1)] \<and> res_has_images r"
proof -
  let ?pd = "\<lparr>pd_page_num = 1, pd_text_blocks = rp_blocks pg, pd_images = [im],
              pd_width = rp_width pg, pd_height = rp_height pg, pd_error = None\<rparr>"
  have pages: "fst (decompose_pages [Inr pg] 0 [] w) = [?pd]"
    by (simp add: Let_def im)
  have le: "length [Inr pg :: ustr + raw_page] \<le> MAX_PAGES_PER_REQUEST"
    by (simp add: MAX_PAGES_PER_REQUEST_def)
  obtain w' where r: "process_pdf_comprehensive E db clk w d et True ct ls pl =
      (Inr (result_of E db (length [Inr pg :: ustr + raw_page])
              (foldl (spec_page E db True ls pl) assembly0 (fst (decompose_pages [Inr pg] 0 [] w)))), w')"
    using process_pdf_ok [OF op le] by blast
  have ch: "spec_page_chunks E db True ls ?pd = [ocr_chunk 1 (unavailable_result 1)]"
    using unavailable_page_chunks [OF un sp, of ?pd ls] bl by simp
  have "res_chunks (result_of E db (length [Inr pg :: ustr + raw_page])
              (foldl (spec_page E db True ls pl) assembly0 [?pd])) = [ocr_chunk 1 (unavailable_result 1)]"
    using ch by (simp add: result_of_def spec_page_def assembly0_def)
  moreover have "res_has_images (result_of E db (length [Inr pg :: ustr + raw_page])
              (foldl (spec_page E db True ls pl) assembly0 [?pd]))"
    by (simp add: result_of_def spec_page_def assembly0_def)
  ultimately show ?thesis using r pages by auto
qed

lemma unavailable_image:
  assumes un: "\<not> TESSERACT_AVAILABLE E"
  shows "\<exists>r w'. process_image_comprehensive E db clk w d et ei ct ls = (Inr r, w')
           \<and> res_chunks r = [ocr_chunk 1 (unavailable_result 1)] \<and> res_has_images r"
proof -
  obtain r w' where 1: "extract_text_with_tesseract E db clk w d 1 ls = (r, w')"
    by (cases "extract_text_with_tesseract E db clk w d 1 ls")
  then have "r = unavailable_result 1" using unavailable_ocr [OF un, of db clk w d 1 ls] by simp
  then show ?thesis using 1 by (simp add: process_image_comprehensive_def Let_def)
qed

text \<open>
  C6. While the import-time flag of the engine is off, every OCR call returns the same
  placeholder result (for its page number), with confidence 0 and chunk type
  "ocr_unavailable". A PDF of one page that has no text lines and exactly one
  extractable image then gives, with image extraction requested, a successful response
  with exactly one chunk, of that type, with has_images set and one warning; an image
  upload gives the same. (The opening bracket of the placeholder text is not
  whitespace in the character tables.)
\<close>

theorem C6_engine_unavailable:
  assumes "\<not> TESSERACT_AVAILABLE E" and "\<not> isspace db 91"
  shows "fst (extract_text_with_tesseract E db clk w d pn ls) = unavailable_result pn
   \<and> r_confidence (unavailable_result pn) = 0
   \<and> r_chunk_type (unavailable_result pn) = lit ''ocr_unavailable''
   \<and> (\<forall>pg im. fd \<noteq> [] \<and> length fd \<le> MAX_FILE_SIZE \<and> contains (lower db cty) (lit ''pdf'')
         \<and> fitz_open E fd = Inr [Inr pg] \<and> (\<forall>b \<in> set (rp_blocks pg). b = None)
         \<and> extract_images_loop (rp_images pg) 0 [] = [im]
       \<longrightarrow> (\<exists>resp w'. extract_text E db clk w fd (Some cty) et True ct langs pl = (Inr resp, w')
              \<and> o_success resp \<and> o_error resp = None \<and> o_has_images resp
              \<and> o_chunks resp = [ocr_chunk 1 (unavailable_result 1)]
              \<and> o_warnings resp = [lit ''Tesseract OCR not available: pytesseract not installed'']))
   \<and> (fd \<noteq> [] \<and> length fd \<le> MAX_FILE_SIZE \<and> \<not> contains (lower db cty) (lit ''pdf'')
         \<and> contains (lower db cty) (lit ''image'')
       \<longrightarrow> (\<exists>resp w'. extract_text E db clk w fd (Some cty) et ei ct langs pl = (Inr resp, w')
              \<and> o_success resp \<and> o_error resp = None \<and> o_has_images resp
              \<and> o_chunks resp = [ocr_chunk 1 (unavailable_result 1)]
              \<and> o_warnings resp = [lit ''Tesseract OCR not available: pytesseract not installed'']))"
proof (intro conjI allI impI)
  show "fst (extract_text_with_tesseract E db clk w d pn ls) = unavailable_result pn"
    using assms(1) by (rule unavailable_ocr)
  show "r_confidence (unavailable_result pn) = 0" by (simp add: unavailable_result_def)
  show "r_chunk_type (unavailable_result pn) = lit ''ocr_unavailable''"
    by (simp add: unavailable_result_def)
next
  fix pg im
  assume h: "fd \<noteq> [] \<and> length fd \<le> MAX_FILE_SIZE \<and> contains (lower db cty) (lit ''pdf'')
         \<and> fitz_open E fd = Inr [Inr pg] \<and> (\<forall>b \<in> set (rp_blocks pg). b = None)
         \<and> extract_images_loop (rp_images pg) 0 [] = [im]"
  let ?w1 = "w\<lparr>ticks := Suc (ticks w)\<rparr>"
  obtain r w2 where r: "process_pdf_comprehensive E db clk ?w1 fd et True ct (parse_languages db langs) pl = (Inr r, w2)"
      "res_chunks r = [ocr_chunk 1 (unavailable_result 1)]" "res_has_images r"
    using unavailable_pdf [OF assms, of fd pg im clk ?w1 et ct "parse_languages db langs" pl] h by blast
  have sel: "(if contains (lower db cty) (lit ''pdf'') then
              process_pdf_comprehensive E db clk ?w1 fd et True ct (parse_languages db langs) pl
            else process_image_comprehensive E db clk ?w1 fd et True ct (parse_languages db langs))
           = (Inr r, w2)" using h r(1) by simp
  show "\<exists>resp w'. extract_text E db clk w fd (Some cty) et True ct langs pl = (Inr resp, w')
              \<and> o_success resp \<and> o_error resp = None \<and> o_has_images resp
              \<and> o_chunks resp = [ocr_chunk 1 (unavailable_result 1)]
              \<and> o_warnings resp = [lit ''Tesseract OCR not available: pytesseract not installed'']"
    using extract_text_success [OF _ _ sel] h r(2,3) check_unavailable [OF assms(1)]
    by (auto simp: lit_def)
next
  assume h: "fd \<noteq> [] \<and> length fd \<le> MAX_FILE_SIZE \<and> \<not> contains (lower db cty) (lit ''pdf'')
         \<and> contains (lower db cty) (lit ''image'')"
  let ?w1 = "w\<lparr>ticks := Suc (ticks w)\<rparr>"
  obtain r w2 where r: "process_image_comprehensive E db clk ?w1 fd et ei ct (parse_languages db langs) = (Inr r, w2)"
      "res_chunks r = [ocr_chunk 1 (unavailable_result 1)]" "res_has_images r"
    using unavailable_image [OF assms(1), of db clk ?w1 fd et ei ct "parse_languages db langs"] by blast
  have sel: "(if contains (lower db cty) (lit ''pdf'') then
              process_pdf_comprehensive E db clk ?w1 fd et ei ct (parse_languages db langs) pl
            else process_image_comprehensive E db clk ?w1 fd et ei ct (parse_languages db langs))
           = (Inr r, w2)" using h r(1) by simp
  show "\<exists>resp w'. extract_text E db clk w fd (Some cty) et ei ct langs pl = (Inr resp, w')
              \<and> o_success resp \<and> o_error resp = None \<and> o_has_images resp
              \<and> o_chunks resp = [ocr_chunk 1 (unavailable_result 1)]
              \<and> o_warnings resp = [lit ''Tesseract OCR not available: pytesseract not installed'']"
    using extract_text_success [OF _ _ sel] h r(2,3) check_unavailable [OF assms(1)]
    by (auto simp: lit_def)
qed

theorem C6_engine_unavailable_witness:
  "fst (extract_text_with_tesseract unavailable_engine ascii_db (\<lambda>n. real n) world0 [1] 1 [lit ''eng''])
     = unavailable_result 1
   \<and> (\<exists>resp w'. extract_text unavailable_engine ascii_db (\<lambda>n. real n) world0 [3]
                  (Some (lit ''application/pdf'')) True True 0.7 (lit ''eng'') True = (Inr resp, w')
         \<and> o_success resp \<and> o_error resp = None \<and> o_has_images resp
         \<and> o_chunks resp = [ocr_chunk 1 (unavailable_result 1)]
         \<and> o_warnings resp = [lit ''Tesseract OCR not available: pytesseract not installed''])"
proof -
  have hyp: "[3] \<noteq> ([] :: bytes) \<and> length ([3] :: bytes) \<le> MAX_FILE_SIZE
         \<and> contains (lower ascii_db (lit ''application/pdf'')) (lit ''pdf'')
         \<and> fitz_open unavailable_engine [3] = Inr [Inr (image_page [1] [])]
         \<and> (\<forall>b \<in> set (rp_blocks (image_page [1] [])). b = None)
         \<and> extract_images_loop (rp_images (image_page [1] [])) 0 [] = [sample_img]"
    using sample_pdf_type sample_doc3 sample_doc3_images
    by (simp add: MAX_FILE_SIZE_def image_page_def)
  show ?thesis
    using C6_engine_unavailable [OF unavailable_flag ascii_bracket,
            of "\<lambda>n. real n" world0 "[1]" 1 "[lit ''eng'']" "[3]" "lit ''application/pdf''"
               True "0.7" "lit ''eng''" True True] hyp
    by blast
qed

text \<open>
  With the packages imported and the binary missing, the installation check reports the
  engine as not available (and the endpoint warns so), yet an OCR call runs the search
  and returns a result of type "ocr_text" with confidence 0.1.
\<close>

theorem C6_counterexample:
  "\<not> fst (check_tesseract_installation probe_failing_engine)
   \<and> r_chunk_type (fst (extract_text_with_tesseract probe_failing_engine ascii_db (\<lambda>n. real n)
                           world0 [1] 1 [lit ''eng''])) = lit ''ocr_text''
   \<and> r_confidence (fst (extract_text_with_tesseract probe_failing_engine ascii_db (\<lambda>n. real n)
                           world0 [1] 1 [lit ''eng''])) = 1 / 10"
  unfolding probe_failing_ocr
  by (simp add: check_tesseract_installation_def probe_failing_engine_def sample_engine_def)

section \<open>The page limit\<close>

text \<open>
  C8. For every PDF whose page count exceeds the maximum of 100, the
  request is rejected with status 413 after every page has been taken apart and before
  any page is assembled: the record of external calls holds one decomposition per page
  and no OCR call.
\<close>

theorem C8_rejected_after_decomposition:
  assumes "fitz_open E d = Inr doc" and "length doc > MAX_PAGES_PER_REQUEST"
  shows "process_pdf_comprehensive E db clk w d et ei ct ls pl =
           (Inl (HTTPException 413 (lit ''Too many pages (max 100)'')),
            w\<lparr>trace := trace w @ map EvDecomposePage [0 ..< length doc]\<rparr>)"
  using assms by (rule process_pdf_too_many)

theorem C8_rejected_after_decomposition_witness:
  "fst (process_pdf_comprehensive sample_engine ascii_db (\<lambda>n. real n) world0 [5]
          True True 0.7 [lit ''eng''] True)
     = Inl (HTTPException 413 (lit ''Too many pages (max 100)''))"
  using C8_rejected_after_decomposition [OF sample_doc5 sample_doc5_length,
      of ascii_db "\<lambda>n. real n" world0 True True "0.7" "[lit ''eng'']" True]
  by simp

theorem C8_counterexample:
  "fitz_open sample_engine [5] = Inr (replicate 101 (Inr empty_page))
   \<and> trace (snd (process_pdf_comprehensive sample_engine ascii_db (\<lambda>n. real n) world0 [5]
          True True 0.7 [lit ''eng''] True)) = map EvDecomposePage [0 ..< 101]"
  using process_pdf_too_many [OF sample_doc5 sample_doc5_length,
      of ascii_db "\<lambda>n. real n" world0 True True "0.7" "[lit ''eng'']" True] sample_doc5
  by (simp add: world0_def)

section \<open>Repeated runs\<close>

text \<open>
  C9. Two runs of the endpoint on the same bytes, content type, options and language
  string, in which the collaborators answer alike (the engine and parser return the
  same, the image decoder words its failures alike and the interpreter enumerates sets
  in the same order), give the same outcome in every field but the processing time,
  whatever the clock reads and whatever state the runs start from.
\<close>

theorem C9_deterministic:
  "erase_time (fst (extract_text E db clk w fd cty et ei ct langs pl)) =
   erase_time (fst (extract_text E db clk' w' fd cty et ei ct langs pl))"
  by (rule extract_text_indep)

theorem C9_deterministic_witness:
  "erase_time (fst (extract_text sample_engine ascii_db (\<lambda>n. real n) world0 [4]
          (Some (lit ''application/pdf'')) True True 0.7 (lit ''eng'') True))
   = erase_time (fst (extract_text sample_engine ascii_db (\<lambda>n. 2 * real n) \<lparr>ticks = 7, trace = []\<rparr> [4]
          (Some (lit ''application/pdf'')) True True 0.7 (lit ''eng'') True))"
  by (rule C9_deterministic)

text \<open>
  Without the condition on the decoder the runs differ: the text of an "ocr_error"
  result quotes the decoder's message, which names the address of a fresh object.
\<close>

theorem C9_counterexample:
  "engines_agree (undecodable_engine 140001) (undecodable_engine 140002)
   \<and> erase_time (fst (extract_text (undecodable_engine 140001) ascii_db (\<lambda>n. real n) world0 [9]
                        (Some (lit ''image/png'')) True True 0.7 (lit ''eng'') True))
     \<noteq> erase_time (fst (extract_text (undecodable_engine 140002) ascii_db (\<lambda>n. real n) world0 [9]
                        (Some (lit ''image/png'')) True True 0.7 (lit ''eng'') True))"
proof -
  obtain r1 w1 where 1: "extract_text (undecodable_engine 140001) ascii_db (\<lambda>n. real n) world0 [9]
                        (Some (lit ''image/png'')) True True 0.7 (lit ''eng'') True = (Inr r1, w1)"
    "o_text r1 = lit ''[OCR error: cannot identify image file <_io.BytesIO object at ''
                        @ str_of_nat 140001 @ lit ''>]''"
    using undecodable_text by blast
  obtain r2 w2 where 2: "extract_text (undecodable_engine 140002) ascii_db (\<lambda>n. real n) world0 [9]
                        (Some (lit ''image/png'')) True True 0.7 (lit ''eng'') True = (Inr r2, w2)"
    "o_text r2 = lit ''[OCR error: cannot identify image file <_io.BytesIO object at ''
                        @ str_of_nat 140002 @ lit ''>]''"
    using undecodable_text by blast
  have "str_of_nat 140001 \<noteq> str_of_nat 140002" by (simp add: str_of_nat.simps)
  then have "o_text r1 \<noteq> o_text r2" unfolding 1(2) 2(2) by simp
  then have "o_text (r1\<lparr>o_processing_time := 0\<rparr>) \<noteq> o_text (r2\<lparr>o_processing_time := 0\<rparr>)" by simp
  then have "r1\<lparr>o_processing_time := 0\<rparr> \<noteq> r2\<lparr>o_processing_time := 0\<rparr>" by metis
  then show ?thesis using 1(1) 2(1) undecodable_agree by (simp add: erase_time_def)
qed

section \<open>Bounding boxes of OCR chunks\<close>

text \<open>
  C10. The bounding box of an OCR-derived chunk is the one of the OCR
  result: [0, 0, width, height] of the decoded image when the chunk type is "ocr_text",
  and the fixed box [0, 0, 100, 100] otherwise, where the type is "ocr_unavailable" or
  "ocr_error". The bounding box recorded for the image during decomposition is never
  used: replacing it changes nothing in what a page step returns.
\<close>

theorem C10_ocr_chunk_bbox:
  "c_bbox (ocr_chunk pn (fst (extract_text_with_tesseract E db clk w (data img) pn ls)))
     = r_bbox (fst (extract_text_with_tesseract E db clk w (data img) pn ls))
   \<and> (c_chunk_type (ocr_chunk pn (fst (extract_text_with_tesseract E db clk w (data img) pn ls)))
         = lit ''ocr_text''
       \<longrightarrow> (\<exists>im. image_open E (data img) = Inr im
              \<and> c_bbox (ocr_chunk pn (fst (extract_text_with_tesseract E db clk w (data img) pn ls)))
                  = [0, 0, real (im_width im), real (im_height im)]))
   \<and> (c_chunk_type (ocr_chunk pn (fst (extract_text_with_tesseract E db clk w (data img) pn ls)))
         \<noteq> lit ''ocr_text''
       \<longrightarrow> c_bbox (ocr_chunk pn (fst (extract_text_with_tesseract E db clk w (data img) pn ls)))
              = [0, 0, 100, 100]
           \<and> c_chunk_type (ocr_chunk pn (fst (extract_text_with_tesseract E db clk w (data img) pn ls)))
               \<in> {lit ''ocr_unavailable'', lit ''ocr_error''})
   \<and> page_step E db clk ei ls pl st
        (pd\<lparr>pd_images := map (\<lambda>i. i\<lparr>img_bbox := f i\<rparr>) (pd_images pd)\<rparr>)
      = page_step E db clk ei ls pl st pd"
proof -
  have ne1: "lit ''ocr_unavailable'' \<noteq> lit ''ocr_text''" by (simp add: lit_def)
  have ne2: "lit ''ocr_error'' \<noteq> lit ''ocr_text''" by (simp add: lit_def)
  show ?thesis
    using ocr_bbox_cases [of E db clk w "data img" pn ls] ne1 ne2
    by (auto simp: ocr_chunk_def page_step_bbox_indep)
qed

theorem C10_ocr_chunk_bbox_witness:
  "c_chunk_type (ocr_chunk 1 (fst (extract_text_with_tesseract sample_engine ascii_db
       (\<lambda>n. real n) world0 (data sample_img) 1 [lit ''eng'']))) = lit ''ocr_text''
   \<and> (\<exists>im. image_open sample_engine (data sample_img) = Inr im
         \<and> [0, 0, real (im_width im), real (im_height im)] = [0, 0, 640, 480])"
proof -
  let ?c = "ocr_chunk 1 (fst (extract_text_with_tesseract sample_engine ascii_db
       (\<lambda>n. real n) world0 (data sample_img) 1 [lit ''eng'']))"
  have ty: "c_chunk_type ?c = lit ''ocr_text''" unfolding sample_ocr_chunk by simp
  have bb: "c_bbox ?c = [0, 0, 640, 480]" unfolding sample_ocr_chunk by simp
  have "c_chunk_type ?c = lit ''ocr_text''
        \<longrightarrow> (\<exists>im. image_open sample_engine (data sample_img) = Inr im
              \<and> c_bbox ?c = [0, 0, real (im_width im), real (im_height im)])"
    using C10_ocr_chunk_bbox [of 1 sample_engine ascii_db "\<lambda>n. real n" world0 sample_img
          "[lit ''eng'']"] by blast
  then obtain im where "image_open sample_engine (data sample_img) = Inr im"
      "c_bbox ?c = [0, 0, real (im_width im), real (im_height im)]"
    using ty by blast
  then show ?thesis using ty bb by auto
qed

theorem C10_counterexample:
  "c_bbox (ocr_chunk 1 (fst (extract_text_with_tesseract unavailable_engine ascii_db
       (\<lambda>n. real n) world0 (data sample_img) 1 [lit ''eng''])))
   \<noteq> [0, 0, real (img_width sample_img), real (img_height sample_img)]"
  unfolding unavailable_ocr_chunk
  by (simp add: ocr_chunk_def unavailable_result_def sample_img_def)

end
